theory Spec2Isabelle
  imports Main
begin

section \<open>Data model of the Meraki secure-connect client (client.go)\<close>

text \<open>
  Go errors are values.  An error made by this package is either a fresh \<open>fmt.Errorf\<close>
  message or an \<open>fmt.Errorf\<close> with a \<open>%w\<close> verb wrapping another error; every other
  error comes from a library (net/http, net/url, io, context, encoding/json) and is kept
  with its message only.
\<close>

datatype error =
    External string
  | Errorf string
  | Wrap string error

text \<open>
  The JSON document handed to \<open>json.Marshal\<close>.  The request keeps the document itself
  rather than its byte encoding, so a Go \<open>map[string]...\<close> is a JSON object, a map from
  keys to documents.
\<close>

datatype json =
    JString string
  | JArray "json list"
  | JObject "string \<rightharpoonup> json"

text \<open>
  An \<open>*http.Request\<close> as far as this client fills it: method, target, the headers in
  the order they were set, and the body (\<open>None\<close> for the \<open>nil\<close> body of a GET).
\<close>

record request =
  Method :: string
  URL :: string
  Header :: "(string \<times> string) list"
  ReqBody :: "json option"

text \<open>
  The body of a response, as net/http hands it over.  A response without content
  (content length zero, or a status that has no body) carries \<open>http.NoBody\<close>, whose
  \<open>Read\<close> reports the end at once and whose \<open>Close\<close> does nothing.  Any other response
  carries a stream on the connection; \<open>Stream\<close> holds what \<open>io.ReadAll\<close> yields from
  it while it is open.
\<close>

datatype body =
    NoBody
  | Stream "error + string"

text \<open>
  An \<open>*http.Response\<close> as far as this client reads it.  \<open>Link\<close> is what
  \<open>resp.Header.Get("Link")\<close> yields (the empty string when the header is absent),
  \<open>Body\<close> is \<open>resp.Body\<close>, and \<open>Closed\<close> records that \<open>resp.Body.Close()\<close> has
  run on it.
\<close>

record response =
  StatusCode :: int
  Status :: string
  Link :: string
  Body :: body
  Closed :: bool

text \<open>
  The client.  \<open>httpClient\<close> is the behaviour of \<open>c.httpClient.Do\<close>: the answer to a
  request, given the number of requests the transport has answered before.  Go's \<open>int\<close>
  is modelled by \<open>int\<close>: the attempt counter of the retry loop starts at 0 and grows by
  one per request sent, and would have to pass the largest machine integer to wrap.
\<close>

record MerakiClient =
  apiKey :: string
  baseURL :: string
  httpClient :: "nat \<Rightarrow> request \<Rightarrow> error + response"
  maxRetries :: int

text \<open>
  The \<open>context.Context\<close> as far as the retry loop observes it: \<open>Done ctx k\<close> tells
  whether, in the backoff wait that follows the \<open>k\<close>-th request sent, the cancellation
  channel wins the \<open>select\<close> against the timer; \<open>Err ctx\<close> is \<open>ctx.Err()\<close>.  The
  length of the wait (a power of two in seconds plus a clock jitter) is not modelled.
\<close>

record Context =
  Done :: "nat \<Rightarrow> bool"
  Err :: error

text \<open>The effect of the client on the outside: the requests handed to the transport, oldest first.\<close>

record world =
  sent :: "request list"

text \<open>
  A function of this package either returns or panics; the only panic in reach is the
  nil-pointer dereference of \<open>resp.Body\<close> on a \<open>nil\<close> response.
\<close>

datatype 'a outcome = Returns 'a | Panics

section \<open>Construction and configuration\<close>

text \<open>
  \<open>NewClient\<close> (lines 22-29).  The source installs a default \<open>http.Client\<close>; its
  behaviour is the third argument here.
\<close>

definition NewClient :: "string \<Rightarrow> string \<Rightarrow> (nat \<Rightarrow> request \<Rightarrow> error + response) \<Rightarrow> MerakiClient" where
  "NewClient key base net =
     \<lparr>apiKey = key, baseURL = base, httpClient = net, maxRetries = 3\<rparr>"

text \<open>\<open>SetMaxRetries\<close> (lines 32-34): the value is stored as it comes.\<close>

definition SetMaxRetries :: "MerakiClient \<Rightarrow> int \<Rightarrow> MerakiClient" where
  "SetMaxRetries c n = c\<lparr>maxRetries := n\<rparr>"

section \<open>The retrying executor\<close>

text \<open>
  \<open>doRequestWithRetry\<close> (lines 37-78).  \<open>retry_loop\<close> is the \<open>for\<close> loop, one call
  per test of \<open>attempt <= c.maxRetries\<close>; its arguments \<open>attempt\<close> and \<open>resp\<close> are
  the loop's variables.  The result is the pair the Go function returns, each component
  \<open>None\<close> for \<open>nil\<close>, and the world after it.
\<close>

function retry_loop ::
  "MerakiClient \<Rightarrow> Context \<Rightarrow> request \<Rightarrow> int \<Rightarrow> response option \<Rightarrow> world
     \<Rightarrow> (response option \<times> error option) \<times> world" where
  "retry_loop c ctx req attempt resp w =
     (if attempt \<le> maxRetries c then
        (let w' = w\<lparr>sent := sent w @ [req]\<rparr> in
         case httpClient c (length (sent w)) req of
           Inl err \<Rightarrow> ((None, Some err), w')
         | Inr r \<Rightarrow>
             if StatusCode r < 300 then ((Some r, None), w')
             else if StatusCode r \<ge> 400 \<and> StatusCode r < 500 \<and> StatusCode r \<noteq> 429
               then ((Some r, None), w')
             else if attempt < maxRetries c \<and> Done ctx (length (sent w')) then
               ((None, Some (Err ctx)), w')
             else retry_loop c ctx req (attempt + 1) (Some (r\<lparr>Closed := True\<rparr>)) w')
      else ((resp, None), w))"
  by pat_completeness auto
termination
  by (relation "measure (\<lambda>(c, ctx, req, attempt, resp, w). nat (maxRetries c + 1 - attempt))") auto

declare retry_loop.simps [simp del]

definition doRequestWithRetry ::
  "MerakiClient \<Rightarrow> Context \<Rightarrow> request \<Rightarrow> world \<Rightarrow> (response option \<times> error option) \<times> world" where
  "doRequestWithRetry c ctx req w = retry_loop c ctx req 0 None w"

text \<open>
  The statuses on which the loop goes round again: neither below 300 nor a client error
  other than 429.
\<close>

definition retried :: "int \<Rightarrow> bool" where
  "retried s = (\<not> s < 300 \<and> \<not> (s \<ge> 400 \<and> s < 500 \<and> s \<noteq> 429))"

text \<open>
  \<open>io.ReadAll(resp.Body)\<close>.  \<open>http.NoBody\<close> reads as empty whether or not it has been
  closed; net/http refuses to read a stream that has been closed.
\<close>

definition ReadAll :: "response \<Rightarrow> error + string" where
  "ReadAll r =
     (case Body r of
        NoBody \<Rightarrow> Inr ''''
      | Stream content \<Rightarrow>
          if Closed r then Inl (External ''http: read on closed response body'') else content)"

section \<open>Library functions the client calls\<close>

text \<open>
  \<open>http.NewRequestWithContext\<close> fails on these calls only when \<open>url.Parse\<close> rejects
  the target, and \<open>json.Unmarshal\<close> decides which bodies decode.  Neither is code of
  this package; both are parameters: \<open>url_Parse\<close> gives the parse error of a target if
  there is one, \<open>Unmarshal_wrapped\<close> is \<open>json.Unmarshal\<close> into the struct with the
  \<open>data\<close> field, read off that field, and \<open>Unmarshal_direct\<close> is \<open>json.Unmarshal\<close>
  into a slice of records.  A record (\<open>map[string]interface{}\<close>) is a value of the type
  parameter; a slice is a list, the \<open>nil\<close> slice being the empty list.
\<close>

record 'site library =
  url_Parse :: "string \<Rightarrow> error option"
  Unmarshal_wrapped :: "string \<Rightarrow> error + 'site list"
  Unmarshal_direct :: "string \<Rightarrow> error + 'site list"

definition NewRequestWithContext ::
  "'site library \<Rightarrow> string \<Rightarrow> string \<Rightarrow> json option \<Rightarrow> error + request" where
  "NewRequestWithContext L method url body =
     (case url_Parse L url of
        Some err \<Rightarrow> Inl err
      | None \<Rightarrow> Inr \<lparr>Method = method, URL = url, Header = [], ReqBody = body\<rparr>)"

text \<open>
  \<open>req.Header.Set\<close>: replace the value of the key, or add the key at the end.  The keys
  are kept as the source writes them; net/http stores them in canonical capitalisation.
\<close>

fun header_set :: "(string \<times> string) list \<Rightarrow> string \<Rightarrow> string \<Rightarrow> (string \<times> string) list" where
  "header_set [] k v = [(k, v)]"
| "header_set ((k', v') # h) k v =
     (if k' = k then (k, v) # h else (k', v') # header_set h k v)"

definition Header_Set :: "request \<Rightarrow> string \<Rightarrow> string \<Rightarrow> request" where
  "Header_Set req k v = req\<lparr>Header := header_set (Header req) k v\<rparr>"

text \<open>The three headers every operation sets, in the source's order.\<close>

definition set_headers :: "MerakiClient \<Rightarrow> request \<Rightarrow> request" where
  "set_headers c req =
     Header_Set
       (Header_Set
          (Header_Set req ''Content-Type'' ''application/json'')
          ''Accept'' ''application/json'')
       ''X-Cisco-Meraki-API-Key'' (apiKey c)"

text \<open>The verb \<open>%d\<close> of \<open>fmt\<close>: an integer in decimal.\<close>

fun decimal :: "nat \<Rightarrow> string" where
  "decimal n =
     (if n < 10 then [char_of (48 + n)]
      else decimal (n div 10) @ [char_of (48 + n mod 10)])"

declare decimal.simps [simp del]

definition Sprint_d :: "int \<Rightarrow> string" where
  "Sprint_d i = (if i < 0 then CHR ''-'' # decimal (nat (- i)) else decimal (nat i))"

text \<open>
  The functions of package \<open>strings\<close> that the Link header parser uses.  A string is
  its bytes.  \<open>TrimSpace\<close> removes the ASCII white space at both ends; Go also removes
  the white space beyond ASCII, which cannot change what the parser extracts, since
  neither the relation names nor the angle brackets are white space.
\<close>

fun Split :: "string \<Rightarrow> char \<Rightarrow> string list" where
  "Split [] sep = [] # []"
| "Split (x # xs) sep =
     (if x = sep then [] # Split xs sep
      else (case Split xs sep of [] \<Rightarrow> [x] # [] | p # ps \<Rightarrow> (x # p) # ps))"

definition isSpace :: "char \<Rightarrow> bool" where
  "isSpace ch = (ch \<in> set [CHR '' '', CHR 0x09, CHR 0x0A, CHR 0x0B, CHR 0x0C, CHR 0x0D])"

definition TrimSpace :: "string \<Rightarrow> string" where
  "TrimSpace s = rev (dropWhile isSpace (rev (dropWhile isSpace s)))"

fun HasPrefix :: "string \<Rightarrow> string \<Rightarrow> bool" where
  "HasPrefix s [] = True"
| "HasPrefix [] (p # ps) = False"
| "HasPrefix (x # xs) (p # ps) = (x = p \<and> HasPrefix xs ps)"

fun Contains :: "string \<Rightarrow> string \<Rightarrow> bool" where
  "Contains [] sub = HasPrefix [] sub"
| "Contains (x # xs) sub = (HasPrefix (x # xs) sub \<or> Contains xs sub)"

text \<open>\<open>strings.Index\<close> for a one-character pattern: the first position, or -1.\<close>

fun Index :: "string \<Rightarrow> char \<Rightarrow> int" where
  "Index [] ch = - 1"
| "Index (x # xs) ch =
     (if x = ch then 0
      else (let i = Index xs ch in if i = - 1 then - 1 else i + 1))"

text \<open>The slice expression \<open>s[lo:hi]\<close>, defined for \<open>0 <= lo <= hi <= len(s)\<close>.\<close>

definition slice :: "string \<Rightarrow> int \<Rightarrow> int \<Rightarrow> string" where
  "slice s lo hi = take (nat (hi - lo)) (drop (nat lo) s)"

section \<open>Create and delete\<close>

text \<open>
  \<open>CreateSecureConnectSite\<close>, lines 82-108: the enrollment map, the body and the
  request.  The map is built as the source builds it, by two conditional updates.
\<close>

definition enrollment :: "string \<Rightarrow> string \<Rightarrow> string \<Rightarrow> string \<Rightarrow> (string \<rightharpoonup> string)" where
  "enrollment siteID regionType regionID regionName =
     (let e0 = [''siteId'' \<mapsto> siteID, ''regionType'' \<mapsto> regionType];
          e1 = (if regionID \<noteq> '''' then e0(''regionId'' \<mapsto> regionID) else e0);
          e2 = (if regionName \<noteq> '''' then e1(''regionName'' \<mapsto> regionName) else e1)
      in e2)"

definition create_body :: "string \<Rightarrow> string \<Rightarrow> string \<Rightarrow> string \<Rightarrow> json" where
  "create_body siteID regionType regionID regionName =
     JObject [''enrollments'' \<mapsto>
       JArray [JObject (map_option JString \<circ> enrollment siteID regionType regionID regionName)]]"

definition sites_url :: "MerakiClient \<Rightarrow> string \<Rightarrow> string" where
  "sites_url c orgID = baseURL c @ ''/organizations/'' @ orgID @ ''/secureConnect/sites''"

text \<open>
  The rest of create and of delete, lines 110-120 and 142-152: the error of the executor
  is tested first, then \<open>defer resp.Body.Close()\<close> dereferences the response, then the
  status decides.  The deferred close acts on a response that is not returned.
\<close>

definition finish ::
  "string \<Rightarrow> (response option \<times> error option) \<times> world \<Rightarrow> error option outcome \<times> world" where
  "finish what res =
     (case res of ((resp, err), w') \<Rightarrow>
        (case err of
           Some e \<Rightarrow> (Returns (Some e), w')
         | None \<Rightarrow>
            (case resp of
               None \<Rightarrow> (Panics, w')
             | Some r \<Rightarrow>
                 if StatusCode r \<ge> 300 then (Returns (Some (Errorf (what @ Status r))), w')
                 else (Returns None, w'))))"

definition CreateSecureConnectSite ::
  "'site library \<Rightarrow> MerakiClient \<Rightarrow> Context \<Rightarrow> string \<Rightarrow> string \<Rightarrow> string \<Rightarrow> string \<Rightarrow> string
     \<Rightarrow> world \<Rightarrow> error option outcome \<times> world" where
  "CreateSecureConnectSite L c ctx orgID siteID regionType regionID regionName w =
     (case NewRequestWithContext L ''POST'' (sites_url c orgID)
             (Some (create_body siteID regionType regionID regionName)) of
        Inl err \<Rightarrow> (Returns (Some err), w)
      | Inr req \<Rightarrow>
          finish ''create failed: '' (doRequestWithRetry c ctx (set_headers c req) w))"

text \<open>\<open>DeleteSecureConnectSites\<close>, lines 124-153.\<close>

definition delete_body :: "string \<Rightarrow> json" where
  "delete_body siteID = JObject [''sites'' \<mapsto> JArray [JString siteID]]"

definition DeleteSecureConnectSites ::
  "'site library \<Rightarrow> MerakiClient \<Rightarrow> Context \<Rightarrow> string \<Rightarrow> string \<Rightarrow> world
     \<Rightarrow> error option outcome \<times> world" where
  "DeleteSecureConnectSites L c ctx orgID siteID w =
     (case NewRequestWithContext L ''DELETE'' (sites_url c orgID) (Some (delete_body siteID)) of
        Inl err \<Rightarrow> (Returns (Some err), w)
      | Inr req \<Rightarrow>
          finish ''delete failed: '' (doRequestWithRetry c ctx (set_headers c req) w))"

section \<open>List, with pagination\<close>

text \<open>
  Lines 213-227: the loop over the comma-separated parts of the Link header.  It ends at
  the first part that names the relation and holds a target between angle brackets;
  \<open>nextURL\<close> stays empty when there is none.
\<close>

fun find_next :: "string list \<Rightarrow> string" where
  "find_next [] = ''''"
| "find_next (link # links) =
     (let link = TrimSpace link in
      if Contains link ''rel=\"next\"'' \<or> Contains link ''rel=next'' then
        (let start = Index link CHR ''<''; end' = Index link CHR ''>'' in
         if start \<noteq> - 1 \<and> end' \<noteq> - 1 \<and> end' > start then slice link (start + 1) end'
         else find_next links)
      else find_next links)"

definition nextURL :: "string \<Rightarrow> string" where
  "nextURL linkHeader = find_next (Split linkHeader CHR '','')"

text \<open>
  One round of the \<open>for\<close> loop of \<open>GetSecureConnectSites\<close> either leaves the function
  or goes round again with a new target and a longer result list.
\<close>

datatype 'site step =
    Stop "('site list \<times> error option) outcome"
  | Next string "'site list"

text \<open>
  Lines 207-238, after a page has been decoded: \<open>currentSites\<close> is the page and
  \<open>allSites\<close> already holds it.
\<close>

definition paginate :: "response \<Rightarrow> 'site list \<Rightarrow> 'site list \<Rightarrow> 'site step" where
  "paginate resp currentSites allSites =
     (let linkHeader = Link resp in
      if linkHeader = '''' then Stop (Returns (allSites, None))
      else if nextURL linkHeader = '''' then Stop (Returns (allSites, None))
      else if length currentSites < 1000 then Stop (Returns (allSites, None))
      else Next (nextURL linkHeader) allSites)"

text \<open>
  Lines 163-205, the round up to the decoded page.  Every \<open>return nil, ...\<close> gives the
  empty list.  The deferred closes act on responses that are not returned.
\<close>

definition list_page ::
  "'site library \<Rightarrow> MerakiClient \<Rightarrow> Context \<Rightarrow> string \<Rightarrow> 'site list \<Rightarrow> world
     \<Rightarrow> 'site step \<times> world" where
  "list_page L c ctx url allSites w =
     (case NewRequestWithContext L ''GET'' url None of
        Inl err \<Rightarrow> (Stop (Returns ([], Some (Wrap ''creating request: '' err))), w)
      | Inr req \<Rightarrow>
         (case doRequestWithRetry c ctx (set_headers c req) w of ((resp, err), w') \<Rightarrow>
            (case err of
               Some e \<Rightarrow> (Stop (Returns ([], Some (Wrap ''sending request: '' e))), w')
             | None \<Rightarrow>
                (case resp of
                   None \<Rightarrow> (Stop Panics, w')
                 | Some r \<Rightarrow>
                    (case ReadAll r of
                       Inl e \<Rightarrow> (Stop (Returns ([], Some (Wrap ''reading response: '' e))), w')
                     | Inr body \<Rightarrow>
                        if StatusCode r \<noteq> 200 then
                          (Stop (Returns ([], Some (Errorf
                             (''bad response ('' @ Sprint_d (StatusCode r) @ ''): '' @ body)))), w')
                        else
                          (case Unmarshal_wrapped L body of
                             Inr data \<Rightarrow> (paginate r data (allSites @ data), w')
                           | Inl _ \<Rightarrow>
                              (case Unmarshal_direct L body of
                                 Inr directData \<Rightarrow>
                                   (paginate r directData (allSites @ directData), w')
                               | Inl _ \<Rightarrow>
                                   (Stop (Returns ([], Some (Errorf
                                      ''response doesn't match expected formats (wrapped or direct array)''))),
                                    w'))))))))"

text \<open>
  The \<open>for\<close> loop has no bound of its own: a server that always names a next page keeps
  it going.  \<open>None\<close> is the run that never returns.
\<close>

partial_function (option) list_loop ::
  "'site library \<Rightarrow> MerakiClient \<Rightarrow> Context \<Rightarrow> string \<Rightarrow> 'site list \<Rightarrow> world
     \<Rightarrow> (('site list \<times> error option) outcome \<times> world) option" where
  "list_loop L c ctx url allSites w =
     (case list_page L c ctx url allSites w of
        (Stop res, w') \<Rightarrow> Some (res, w')
      | (Next url' allSites', w') \<Rightarrow> list_loop L c ctx url' allSites' w')"

definition GetSecureConnectSites ::
  "'site library \<Rightarrow> MerakiClient \<Rightarrow> Context \<Rightarrow> string \<Rightarrow> world
     \<Rightarrow> (('site list \<times> error option) outcome \<times> world) option" where
  "GetSecureConnectSites L c ctx orgID w =
     list_loop L c ctx (sites_url c orgID @ ''?perPage=1000'') [] w"

section \<open>Notions of the specification\<close>

text \<open>
  The requests the three operations hand to the executor once
  \<open>NewRequestWithContext\<close> has succeeded.
\<close>

definition create_request :: "MerakiClient \<Rightarrow> string \<Rightarrow> string \<Rightarrow> string \<Rightarrow> string \<Rightarrow> string \<Rightarrow> request" where
  "create_request c orgID siteID regionType regionID regionName =
     set_headers c \<lparr>Method = ''POST'', URL = sites_url c orgID, Header = [],
                    ReqBody = Some (create_body siteID regionType regionID regionName)\<rparr>"

definition delete_request :: "MerakiClient \<Rightarrow> string \<Rightarrow> string \<Rightarrow> request" where
  "delete_request c orgID siteID =
     set_headers c \<lparr>Method = ''DELETE'', URL = sites_url c orgID, Header = [],
                    ReqBody = Some (delete_body siteID)\<rparr>"

definition list_request :: "MerakiClient \<Rightarrow> string \<Rightarrow> request" where
  "list_request c url =
     set_headers c \<lparr>Method = ''GET'', URL = url, Header = [], ReqBody = None\<rparr>"

text \<open>
  The page a body decodes to: the wrapped format first, the bare list second, \<open>None\<close>
  when both attempts fail.
\<close>

definition decode_page :: "'site library \<Rightarrow> string \<Rightarrow> 'site list option" where
  "decode_page L body =
     (case Unmarshal_wrapped L body of
        Inr data \<Rightarrow> Some data
      | Inl _ \<Rightarrow> (case Unmarshal_direct L body of Inr directData \<Rightarrow> Some directData | Inl _ \<Rightarrow> None))"

text \<open>
  A Link header in the specification's words: directives separated by commas, a
  directive being a target between angle brackets followed by parameters.  \<open>names_next\<close>
  holds of a text that mentions the relation next, quoted or not; \<open>directive part u\<close>
  says that \<open>part\<close> is, after white space, the target \<open>u\<close> in brackets followed by
  parameters that name the relation; \<open>next_link h u\<close> says that \<open>h\<close> is a
  comma-separated sequence whose first part naming the relation is such a directive.
\<close>

fun Join :: "string list \<Rightarrow> string" where
  "Join [] = []"
| "Join [p] = p"
| "Join (p # q # ps) = p @ CHR '','' # Join (q # ps)"

definition names_next :: "string \<Rightarrow> bool" where
  "names_next s = (Contains s ''rel=\"next\"'' \<or> Contains s ''rel=next'')"

definition directive :: "string \<Rightarrow> string \<Rightarrow> bool" where
  "directive part u =
     (\<exists>sp params. part = sp @ ''<'' @ u @ ''>'' @ params \<and> list_all isSpace sp \<and>
                  CHR ''>'' \<notin> set u \<and> names_next params)"

definition next_link :: "string \<Rightarrow> string \<Rightarrow> bool" where
  "next_link linkHeader u =
     (\<exists>pre part post.
        linkHeader = Join (pre @ part # post) \<and>
        list_all (\<lambda>q. CHR '','' \<notin> set q) (pre @ part # post) \<and>
        list_all (\<lambda>q. \<not> names_next q) pre \<and>
        directive part u)"

section \<open>Fixtures for the concrete runs\<close>

text \<open>A response without content.\<close>

definition fx_resp :: "int \<Rightarrow> string \<Rightarrow> response" where
  "fx_resp code text =
     \<lparr>StatusCode = code, Status = text, Link = '''', Body = NoBody, Closed = False\<rparr>"

definition fx_ctx :: Context where
  "fx_ctx = \<lparr>Done = (\<lambda>k. False), Err = External ''context canceled''\<rparr>"

definition fx_req :: request where
  "fx_req = \<lparr>Method = ''GET'', URL = ''https://h/x'', Header = [], ReqBody = None\<rparr>"

text \<open>A transport that is unavailable twice and then answers, with a budget of two retries.\<close>

definition fx_flaky :: MerakiClient where
  "fx_flaky = SetMaxRetries
     (NewClient ''key'' ''https://h''
        (\<lambda>k req. if k < 2 then Inr (fx_resp 503 ''503 Service Unavailable'')
                  else Inr (fx_resp 200 ''200 OK'')))
     2"

text \<open>A transport that always limits the rate, with a budget of one retry.\<close>

definition fx_limited :: MerakiClient where
  "fx_limited = SetMaxRetries
     (NewClient ''key'' ''https://h'' (\<lambda>k req. Inr (fx_resp 429 ''429 Too Many Requests'')))
     1"

text \<open>A transport that refuses every POST and accepts everything else.\<close>

definition fx_refusing :: MerakiClient where
  "fx_refusing = NewClient ''key'' ''https://h''
     (\<lambda>k req. if Method req = ''POST'' then Inr (fx_resp 404 ''404 Not Found'')
               else Inr (fx_resp 204 ''204 No Content''))"

text \<open>A library that parses every target and decodes no body.\<close>

definition fx_lib :: "nat library" where
  "fx_lib = \<lparr>url_Parse = (\<lambda>u. None),
             Unmarshal_wrapped = (\<lambda>b. Inl (External ''json: cannot unmarshal'')),
             Unmarshal_direct = (\<lambda>b. Inl (External ''json: cannot unmarshal''))\<rparr>"

text \<open>
  A server with three pages of 1000, 1000 and 400 records, the records being numbers.
  The first two pages are in the wrapped format and name their successor, the third is
  a bare list with no Link header.  Any other target is not found.
\<close>

definition fx_page :: "string \<Rightarrow> string \<Rightarrow> response" where
  "fx_page body link =
     \<lparr>StatusCode = 200, Status = ''200 OK'', Link = link, Body = Stream (Inr body), Closed = False\<rparr>"

definition fx_u1 :: string where
  "fx_u1 = ''https://h/organizations/org/secureConnect/sites?perPage=1000''"

definition fx_link2 :: string where
  "fx_link2 = ''<https://h/p2>; rel=\"next\"''"

definition fx_link3 :: string where
  "fx_link3 = ''<https://h/p1>; rel=first, <https://h/p3>; rel=next''"

definition fx_paged :: MerakiClient where
  "fx_paged = NewClient ''key'' ''https://h''
     (\<lambda>k req. if URL req = fx_u1 then Inr (fx_page ''page1'' fx_link2)
               else if URL req = ''https://h/p2'' then Inr (fx_page ''page2'' fx_link3)
               else if URL req = ''https://h/p3'' then Inr (fx_page ''page3'' '''')
               else Inr ((fx_resp 404 ''404 Not Found'')\<lparr>Body := Stream (Inr ''not found'')\<rparr>))"

definition fx_p1 :: "nat list" where "fx_p1 = replicate 1000 1"

definition fx_p2 :: "nat list" where "fx_p2 = replicate 1000 2"

definition fx_p3 :: "nat list" where "fx_p3 = replicate 400 3"

definition fx_pages :: "nat library" where
  "fx_pages = \<lparr>url_Parse = (\<lambda>u. None),
      Unmarshal_wrapped = (\<lambda>b. if b = ''page1'' then Inr fx_p1
                               else if b = ''page2'' then Inr fx_p2
                               else Inl (External ''json: cannot unmarshal'')),
      Unmarshal_direct = (\<lambda>b. if b = ''page3'' then Inr fx_p3
                              else Inl (External ''json: cannot unmarshal''))\<rparr>"

text \<open>The same server when its second page has gone: the first page names a target that is not found.\<close>

definition fx_torn :: MerakiClient where
  "fx_torn = NewClient ''key'' ''https://h''
     (\<lambda>k req. if URL req = fx_u1 then Inr (fx_page ''page1'' fx_link2)
               else Inr ((fx_resp 404 ''404 Not Found'')\<lparr>Body := Stream (Inr ''not found'')\<rparr>))"


text \<open>A transport that always limits the rate and says so in a body, with a budget of one retry.\<close>

definition fx_busy :: MerakiClient where
  "fx_busy = SetMaxRetries
     (NewClient ''key'' ''https://h''
        (\<lambda>k req. Inr ((fx_resp 429 ''429 Too Many Requests'')\<lparr>Body := Stream (Inr ''slow down'')\<rparr>)))
     1"

text \<open>A server whose only page has the given body and no Link header.\<close>

definition fx_serving :: "string \<Rightarrow> MerakiClient" where
  "fx_serving body = NewClient ''key'' ''https://h'' (\<lambda>k req. Inr (fx_page body ''''))"

text \<open>
  A library that behaves as encoding/json does on two bodies.  On the object
  \<open>{"error":"x"}\<close>, \<open>json.Unmarshal\<close> into the wrapper struct returns no error: a key
  that matches no field is ignored and \<open>Data\<close> stays \<open>nil\<close>.  On the string
  \<open>"oops"\<close> it fails into the struct and into the slice alike.
\<close>

definition fx_json :: "nat library" where
  "fx_json = \<lparr>url_Parse = (\<lambda>u. None),
      Unmarshal_wrapped = (\<lambda>b. if b = ''{\"error\":\"x\"}'' then Inr []
                               else Inl (External ''json: cannot unmarshal string into Go value'')),
      Unmarshal_direct = (\<lambda>b. Inl (External ''json: cannot unmarshal into Go value of type []map[string]interface {}''))\<rparr>"

section \<open>The executor: retries, exhaustion, closed bodies\<close>

lemma retried_503: "retried 503"
  by (simp add: retried_def)

lemma retried_429: "retried 429"
  by (simp add: retried_def)

lemma retry_loop_exit:
  "\<not> attempt \<le> maxRetries c \<Longrightarrow> retry_loop c ctx req attempt resp w = ((resp, None), w)"
  by (simp add: retry_loop.simps)

lemma retry_loop_again:
  assumes "attempt \<le> maxRetries c"
    and "httpClient c (length (sent w)) req = Inr r"
    and "retried (StatusCode r)"
    and "attempt < maxRetries c \<Longrightarrow> \<not> Done ctx (Suc (length (sent w)))"
  shows "retry_loop c ctx req attempt resp w =
         retry_loop c ctx req (attempt + 1) (Some (r\<lparr>Closed := True\<rparr>)) (w\<lparr>sent := sent w @ [req]\<rparr>)"
  using assms by (subst retry_loop.simps) (auto simp: retried_def Let_def)

lemma retry_loop_answer:
  assumes "attempt \<le> maxRetries c"
    and "httpClient c (length (sent w)) req = Inr r"
    and "\<not> retried (StatusCode r)"
  shows "retry_loop c ctx req attempt resp w = ((Some r, None), w\<lparr>sent := sent w @ [req]\<rparr>)"
  using assms by (subst retry_loop.simps) (auto simp: retried_def Let_def)

lemma retry_loop_rounds:
  assumes "\<forall>k<n. \<exists>r. httpClient c (length (sent w) + k) req = Inr r \<and> retried (StatusCode r)"
    and "\<forall>k<n. attempt + int k < maxRetries c \<longrightarrow> \<not> Done ctx (length (sent w) + k + 1)"
    and "attempt + int n \<le> maxRetries c + 1"
    and "0 < n"
  shows "retry_loop c ctx req attempt resp w =
         retry_loop c ctx req (attempt + int n)
           (Some ((projr (httpClient c (length (sent w) + n - 1) req))\<lparr>Closed := True\<rparr>))
           (w\<lparr>sent := sent w @ replicate n req\<rparr>)"
  using assms
proof (induction n arbitrary: attempt resp w)
  case 0
  then show ?case by simp
next
  case (Suc n)
  from Suc.prems(1) obtain r where r: "httpClient c (length (sent w)) req = Inr r" "retried (StatusCode r)"
    by force
  have le: "attempt \<le> maxRetries c" using Suc.prems(3) by simp
  have nd: "attempt < maxRetries c \<Longrightarrow> \<not> Done ctx (Suc (length (sent w)))"
    using Suc.prems(2) by force
  let ?w = "w\<lparr>sent := sent w @ [req]\<rparr>"
  have step: "retry_loop c ctx req attempt resp w =
         retry_loop c ctx req (attempt + 1) (Some (r\<lparr>Closed := True\<rparr>)) ?w"
    by (rule retry_loop_again [OF le r nd])
  show ?case
  proof (cases "n = 0")
    case True
    then show ?thesis using step r by simp
  next
    case False
    have a: "\<forall>k<n. \<exists>r. httpClient c (length (sent ?w) + k) req = Inr r \<and> retried (StatusCode r)"
      using Suc.prems(1) by (auto dest: spec [where x = "Suc k" for k])
    have b: "\<forall>k<n. attempt + 1 + int k < maxRetries c \<longrightarrow> \<not> Done ctx (length (sent ?w) + k + 1)"
    proof (intro allI impI)
      fix k assume "k < n" "attempt + 1 + int k < maxRetries c"
      then show "\<not> Done ctx (length (sent ?w) + k + 1)"
        using Suc.prems(2) [rule_format, of "Suc k"] by simp
    qed
    have c': "attempt + 1 + int n \<le> maxRetries c + 1" using Suc.prems(3) by simp
    have "retry_loop c ctx req (attempt + 1) (Some (r\<lparr>Closed := True\<rparr>)) ?w =
          retry_loop c ctx req (attempt + 1 + int n)
           (Some ((projr (httpClient c (length (sent ?w) + n - 1) req))\<lparr>Closed := True\<rparr>))
           (?w\<lparr>sent := sent ?w @ replicate n req\<rparr>)"
      using Suc.IH [OF a b c'] False by simp
    then show ?thesis using step False
      by (simp add: replicate_app_Cons_same add.commute add.left_commute)
  qed
qed


lemma retry_loop_rounds0:
  assumes "\<forall>k<n. \<exists>r. httpClient c (length (sent w) + k) req = Inr r \<and> retried (StatusCode r)"
    and "\<forall>k<n. attempt + int k < maxRetries c \<longrightarrow> \<not> Done ctx (length (sent w) + k + 1)"
    and "attempt + int n \<le> maxRetries c + 1"
  shows "\<exists>resp'. retry_loop c ctx req attempt resp w =
         retry_loop c ctx req (attempt + int n) resp' (w\<lparr>sent := sent w @ replicate n req\<rparr>)"
proof (cases "n = 0")
  case True
  then show ?thesis by (intro exI [of _ resp]) simp
next
  case False
  then show ?thesis using retry_loop_rounds [OF assms] by blast
qed

text \<open>
  C2.  With a retry count \<open>N\<close> and a transport that answers 503 to the next \<open>N\<close>
  requests and 200 to the one after, the executor returns that 200 response with no
  error, and it has sent the request exactly \<open>N + 1\<close> times.  The context is not
  cancelled during the \<open>N\<close> backoff waits.
\<close>

theorem retry_503_then_200:
  assumes "maxRetries c = int N"
    and "\<forall>k<N. \<exists>r. httpClient c (length (sent w) + k) req = Inr r \<and> StatusCode r = 503"
    and "httpClient c (length (sent w) + N) req = Inr ok"
    and "StatusCode ok = 200"
    and "\<forall>k<N. \<not> Done ctx (length (sent w) + k + 1)"
  shows "doRequestWithRetry c ctx req w =
         ((Some ok, None), w\<lparr>sent := sent w @ replicate (N + 1) req\<rparr>)"
proof -
  have a: "\<forall>k<N. \<exists>r. httpClient c (length (sent w) + k) req = Inr r \<and> retried (StatusCode r)"
    using assms(2) retried_503 by fastforce
  have b: "\<forall>k<N. 0 + int k < maxRetries c \<longrightarrow> \<not> Done ctx (length (sent w) + k + 1)"
    using assms(5) by simp
  have c': "0 + int N \<le> maxRetries c + 1" using assms(1) by simp
  obtain resp' where run: "retry_loop c ctx req 0 None w =
      retry_loop c ctx req (0 + int N) resp' (w\<lparr>sent := sent w @ replicate N req\<rparr>)"
    using retry_loop_rounds0 [OF a b c'] by blast
  let ?w = "w\<lparr>sent := sent w @ replicate N req\<rparr>"
  have "retry_loop c ctx req (int N) resp' ?w = ((Some ok, None), ?w\<lparr>sent := sent ?w @ [req]\<rparr>)"
  proof (rule retry_loop_answer)
    show "int N \<le> maxRetries c" using assms(1) by simp
    show "httpClient c (length (sent ?w)) req = Inr ok" using assms(3) by simp
    show "\<not> retried (StatusCode ok)" using assms(4) by (simp add: retried_def)
  qed
  then show ?thesis using run
    by (simp add: doRequestWithRetry_def replicate_append_same)
qed

text \<open>
  C4.  With a non-negative retry count and a transport that answers 429 to every
  request, the executor sends the request \<open>maxRetries + 1\<close> times and returns the last
  answer received, its body closed, with a \<open>nil\<close> error.  The context is not cancelled
  during the waits.
\<close>

theorem retry_429_exhausted:
  assumes "0 \<le> maxRetries c"
    and "\<forall>k. \<exists>r. httpClient c k req = Inr r \<and> StatusCode r = 429"
    and "\<forall>k. \<not> Done ctx k"
  shows "\<exists>r. httpClient c (length (sent w) + nat (maxRetries c)) req = Inr r \<and> StatusCode r = 429 \<and>
           doRequestWithRetry c ctx req w =
             ((Some (r\<lparr>Closed := True\<rparr>), None),
              w\<lparr>sent := sent w @ replicate (nat (maxRetries c) + 1) req\<rparr>)"
proof -
  let ?n = "nat (maxRetries c) + 1"
  obtain r where r: "httpClient c (length (sent w) + nat (maxRetries c)) req = Inr r" "StatusCode r = 429"
    using assms(2) by blast
  have a: "\<forall>k<?n. \<exists>r. httpClient c (length (sent w) + k) req = Inr r \<and> retried (StatusCode r)"
    using assms(2) retried_429 by metis
  have b: "\<forall>k<?n. 0 + int k < maxRetries c \<longrightarrow> \<not> Done ctx (length (sent w) + k + 1)"
    using assms(3) by simp
  have c': "0 + int ?n \<le> maxRetries c + 1" using assms(1) by simp
  have "retry_loop c ctx req 0 None w =
        retry_loop c ctx req (0 + int ?n)
          (Some ((projr (httpClient c (length (sent w) + ?n - 1) req))\<lparr>Closed := True\<rparr>))
          (w\<lparr>sent := sent w @ replicate ?n req\<rparr>)"
    by (rule retry_loop_rounds [OF a b c']) simp
  also have "\<dots> = ((Some (r\<lparr>Closed := True\<rparr>), None), w\<lparr>sent := sent w @ replicate ?n req\<rparr>)"
    using r(1) assms(1) by (simp add: retry_loop_exit)
  finally show ?thesis using r by (auto simp: doRequestWithRetry_def)
qed

lemma retry_loop_final:
  "retry_loop c ctx req attempt resp w = ((Some r, None), w') \<Longrightarrow> retried (StatusCode r) \<Longrightarrow>
   (if attempt \<le> maxRetries c then
      (\<exists>r0. httpClient c (length (sent w) + nat (maxRetries c - attempt)) req = Inr r0 \<and>
            r = r0\<lparr>Closed := True\<rparr>) \<and>
      sent w' = sent w @ replicate (nat (maxRetries c - attempt) + 1) req
    else resp = Some r \<and> w' = w)"
proof (induction c ctx req attempt resp w rule: retry_loop.induct)
  case (1 c ctx req attempt resp w)
  show ?case
  proof (cases "attempt \<le> maxRetries c")
    case False
    then show ?thesis using "1.prems" by (simp add: retry_loop_exit)
  next
    case True
    let ?w = "w\<lparr>sent := sent w @ [req]\<rparr>"
    from True "1.prems" obtain r1 where r1: "httpClient c (length (sent w)) req = Inr r1"
      by (subst (asm) retry_loop.simps) (auto simp: Let_def split: sum.splits)
    have rt: "retried (StatusCode r1)"
    proof (rule ccontr)
      assume "\<not> retried (StatusCode r1)"
      then have "retry_loop c ctx req attempt resp w = ((Some r1, None), ?w)"
        using True r1 by (rule retry_loop_answer [rotated 2])
      with "1.prems" show False using \<open>\<not> retried (StatusCode r1)\<close> by simp
    qed
    have nd: "\<not> (attempt < maxRetries c \<and> Done ctx (length (sent ?w)))"
      using True r1 rt "1.prems"(1)
      by (subst (asm) retry_loop.simps) (auto simp: Let_def retried_def)
    have rec: "retry_loop c ctx req (attempt + 1) (Some (r1\<lparr>Closed := True\<rparr>)) ?w = ((Some r, None), w')"
      using True r1 rt nd "1.prems"(1)
      by (subst (asm) retry_loop.simps) (auto simp: Let_def retried_def)
    have ih: "if attempt + 1 \<le> maxRetries c then
      (\<exists>r0. httpClient c (length (sent ?w) + nat (maxRetries c - (attempt + 1))) req = Inr r0 \<and>
            r = r0\<lparr>Closed := True\<rparr>) \<and>
      sent w' = sent ?w @ replicate (nat (maxRetries c - (attempt + 1)) + 1) req
    else Some (r1\<lparr>Closed := True\<rparr>) = Some r \<and> w' = ?w"
      using "1.IH" [OF True refl r1 _ _ _ rec "1.prems"(2)] rt nd
      by (auto simp: retried_def)
    show ?thesis
    proof (cases "attempt + 1 \<le> maxRetries c")
      case False
      then have "attempt = maxRetries c" using True by simp
      then show ?thesis using ih r1 by auto
    next
      case T2: True
      define m where "m = nat (maxRetries c - (attempt + 1))"
      have e: "nat (maxRetries c - attempt) = Suc m" using T2 by (simp add: m_def)
      from ih T2 obtain r0 where r0: "httpClient c (length (sent ?w) + m) req = Inr r0"
          "r = r0\<lparr>Closed := True\<rparr>"
        and s: "sent w' = sent ?w @ replicate (m + 1) req"
        by (auto simp: m_def)
      have "length (sent ?w) + m = length (sent w) + Suc m" by simp
      with r0 have "httpClient c (length (sent w) + Suc m) req = Inr r0" by simp
      then show ?thesis using True r0(2) s by (simp add: e)
    qed
  qed
qed


theorem retry_503_then_200_witness:
  "maxRetries fx_flaky = int 2 \<and>
   httpClient fx_flaky 0 fx_req = Inr (fx_resp 503 ''503 Service Unavailable'') \<and>
   httpClient fx_flaky 1 fx_req = Inr (fx_resp 503 ''503 Service Unavailable'') \<and>
   httpClient fx_flaky 2 fx_req = Inr (fx_resp 200 ''200 OK'') \<and>
   StatusCode (fx_resp 200 ''200 OK'') = 200 \<and>
   \<not> Done fx_ctx 1 \<and> \<not> Done fx_ctx 2 \<and>
   doRequestWithRetry fx_flaky fx_ctx fx_req \<lparr>sent = []\<rparr> =
     ((Some (fx_resp 200 ''200 OK''), None), \<lparr>sent = [fx_req, fx_req, fx_req]\<rparr>)"
proof -
  have h1: "maxRetries fx_flaky = int 2"
    by (simp add: fx_flaky_def SetMaxRetries_def)
  have h2: "\<forall>k<2. \<exists>r. httpClient fx_flaky (length (sent \<lparr>sent = []\<rparr>) + k) fx_req = Inr r \<and> StatusCode r = 503"
    by (simp add: fx_flaky_def SetMaxRetries_def NewClient_def fx_resp_def)
  have h3: "httpClient fx_flaky (length (sent \<lparr>sent = []\<rparr>) + 2) fx_req = Inr (fx_resp 200 ''200 OK'')"
    by (simp add: fx_flaky_def SetMaxRetries_def NewClient_def)
  have h4: "StatusCode (fx_resp 200 ''200 OK'') = 200"
    by (simp add: fx_resp_def)
  have h5: "\<forall>k<2. \<not> Done fx_ctx (length (sent \<lparr>sent = []\<rparr>) + k + 1)"
    by (simp add: fx_ctx_def)
  have run: "doRequestWithRetry fx_flaky fx_ctx fx_req \<lparr>sent = []\<rparr> =
     ((Some (fx_resp 200 ''200 OK''), None), \<lparr>sent = [fx_req, fx_req, fx_req]\<rparr>)"
    using retry_503_then_200 [OF h1 h2 h3 h4 h5] by (simp add: numeral_3_eq_3)
  have a0: "httpClient fx_flaky 0 fx_req = Inr (fx_resp 503 ''503 Service Unavailable'')"
    and a1: "httpClient fx_flaky 1 fx_req = Inr (fx_resp 503 ''503 Service Unavailable'')"
    and a2: "httpClient fx_flaky 2 fx_req = Inr (fx_resp 200 ''200 OK'')"
    by (simp_all add: fx_flaky_def SetMaxRetries_def NewClient_def)
  have d1: "\<not> Done fx_ctx 1" and d2: "\<not> Done fx_ctx 2"
    by (simp_all add: fx_ctx_def)
  from h1 a0 a1 a2 h4 d1 d2 run show ?thesis by blast
qed

theorem retry_429_exhausted_witness:
  "0 \<le> maxRetries fx_limited \<and>
   (\<forall>k. \<exists>r. httpClient fx_limited k fx_req = Inr r \<and> StatusCode r = 429) \<and>
   (\<forall>k. \<not> Done fx_ctx k) \<and>
   doRequestWithRetry fx_limited fx_ctx fx_req \<lparr>sent = []\<rparr> =
     ((Some ((fx_resp 429 ''429 Too Many Requests'')\<lparr>Closed := True\<rparr>), None),
      \<lparr>sent = [fx_req, fx_req]\<rparr>)"
proof -
  have h1: "0 \<le> maxRetries fx_limited"
    by (simp add: fx_limited_def SetMaxRetries_def)
  have h2: "\<forall>k. \<exists>r. httpClient fx_limited k fx_req = Inr r \<and> StatusCode r = 429"
    by (simp add: fx_limited_def SetMaxRetries_def NewClient_def fx_resp_def)
  have h3: "\<forall>k. \<not> Done fx_ctx k"
    by (simp add: fx_ctx_def)
  have "doRequestWithRetry fx_limited fx_ctx fx_req \<lparr>sent = []\<rparr> =
     ((Some ((fx_resp 429 ''429 Too Many Requests'')\<lparr>Closed := True\<rparr>), None),
      \<lparr>sent = [fx_req, fx_req]\<rparr>)"
    using retry_429_exhausted [OF h1 h2 h3, of "\<lparr>sent = []\<rparr>"]
    by (auto simp: fx_limited_def SetMaxRetries_def NewClient_def numeral_2_eq_2)
  with h1 h2 h3 show ?thesis by blast
qed

text \<open>
  C10, as amended.  A response that the executor returns with a status it retries has
  come through the end of the loop: the whole budget of \<open>maxRetries + 1\<close> requests has
  been sent, the response is the last one received, and \<open>Close\<close> has run on its body
  before the executor returns it.  What the caller can still read depends on the body:
  a stream can no longer be read, while a response without content still reads as
  empty.
\<close>

theorem exhausted_response_closed:
  assumes "doRequestWithRetry c ctx req w = ((Some r, None), w')"
    and "retried (StatusCode r)"
  shows "0 \<le> maxRetries c \<and>
         sent w' = sent w @ replicate (nat (maxRetries c) + 1) req \<and>
         (\<exists>r0. httpClient c (length (sent w) + nat (maxRetries c)) req = Inr r0 \<and>
               r = r0\<lparr>Closed := True\<rparr>) \<and>
         Closed r \<and>
         ReadAll r =
           (case Body r of
              NoBody \<Rightarrow> Inr ''''
            | Stream content \<Rightarrow> Inl (External ''http: read on closed response body''))"
proof -
  have nonneg: "0 \<le> maxRetries c"
  proof (rule ccontr)
    assume "\<not> 0 \<le> maxRetries c"
    then have "doRequestWithRetry c ctx req w = ((None, None), w)"
      by (simp add: doRequestWithRetry_def retry_loop_exit)
    with assms(1) show False by simp
  qed
  from assms have f: "(\<exists>r0. httpClient c (length (sent w) + nat (maxRetries c - 0)) req = Inr r0 \<and>
            r = r0\<lparr>Closed := True\<rparr>) \<and>
      sent w' = sent w @ replicate (nat (maxRetries c - 0) + 1) req"
    using retry_loop_final [of c ctx req 0 None w r w'] nonneg
    by (simp add: doRequestWithRetry_def)
  then obtain r0 where r0: "httpClient c (length (sent w) + nat (maxRetries c)) req = Inr r0"
      "r = r0\<lparr>Closed := True\<rparr>"
    by auto
  have cl: "Closed r" using r0(2) by simp
  then have rd: "ReadAll r =
           (case Body r of
              NoBody \<Rightarrow> Inr ''''
            | Stream content \<Rightarrow> Inl (External ''http: read on closed response body''))"
    by (simp add: ReadAll_def split: body.splits)
  from nonneg f r0 cl rd show ?thesis by auto
qed

theorem exhausted_response_closed_witness:
  "doRequestWithRetry fx_busy fx_ctx fx_req \<lparr>sent = []\<rparr> =
     ((Some ((fx_resp 429 ''429 Too Many Requests'')
               \<lparr>Body := Stream (Inr ''slow down''), Closed := True\<rparr>), None),
      \<lparr>sent = [fx_req, fx_req]\<rparr>) \<and>
   retried (StatusCode ((fx_resp 429 ''429 Too Many Requests'')
               \<lparr>Body := Stream (Inr ''slow down''), Closed := True\<rparr>)) \<and>
   Closed ((fx_resp 429 ''429 Too Many Requests'')
               \<lparr>Body := Stream (Inr ''slow down''), Closed := True\<rparr>) \<and>
   ReadAll ((fx_resp 429 ''429 Too Many Requests'')
               \<lparr>Body := Stream (Inr ''slow down''), Closed := True\<rparr>) =
     Inl (External ''http: read on closed response body'')"
proof -
  let ?r = "(fx_resp 429 ''429 Too Many Requests'')
               \<lparr>Body := Stream (Inr ''slow down''), Closed := True\<rparr>"
  have h1: "doRequestWithRetry fx_busy fx_ctx fx_req \<lparr>sent = []\<rparr> =
     ((Some ?r, None), \<lparr>sent = [fx_req, fx_req]\<rparr>)"
    by (simp add: doRequestWithRetry_def retry_loop.simps fx_busy_def SetMaxRetries_def
        NewClient_def fx_resp_def fx_ctx_def)
  have h2: "retried (StatusCode ?r)"
    by (simp add: retried_def fx_resp_def)
  have b: "Body ?r = Stream (Inr ''slow down'')"
    by (simp add: fx_resp_def)
  have "Closed ?r \<and> ReadAll ?r = Inl (External ''http: read on closed response body'')"
    using exhausted_response_closed [OF h1 h2] by (simp add: b)
  with h1 h2 show ?thesis by blast
qed

text \<open>
  C10 as it was stated fails on a response without content: the executor exhausts its
  budget on it and closes it, and it still reads, as empty.
\<close>

theorem exhausted_response_closed_counterexample:
  "doRequestWithRetry fx_limited fx_ctx fx_req \<lparr>sent = []\<rparr> =
     ((Some ((fx_resp 429 ''429 Too Many Requests'')\<lparr>Closed := True\<rparr>), None),
      \<lparr>sent = [fx_req, fx_req]\<rparr>) \<and>
   retried (StatusCode ((fx_resp 429 ''429 Too Many Requests'')\<lparr>Closed := True\<rparr>)) \<and>
   Closed ((fx_resp 429 ''429 Too Many Requests'')\<lparr>Closed := True\<rparr>) \<and>
   ReadAll ((fx_resp 429 ''429 Too Many Requests'')\<lparr>Closed := True\<rparr>) = Inr ''''"
proof -
  have h1: "doRequestWithRetry fx_limited fx_ctx fx_req \<lparr>sent = []\<rparr> =
     ((Some ((fx_resp 429 ''429 Too Many Requests'')\<lparr>Closed := True\<rparr>), None),
      \<lparr>sent = [fx_req, fx_req]\<rparr>)"
    by (simp add: doRequestWithRetry_def retry_loop.simps fx_limited_def SetMaxRetries_def
        NewClient_def fx_resp_def fx_ctx_def)
  have h2: "retried (StatusCode ((fx_resp 429 ''429 Too Many Requests'')\<lparr>Closed := True\<rparr>))"
    by (simp add: retried_def fx_resp_def)
  have h3: "Closed ((fx_resp 429 ''429 Too Many Requests'')\<lparr>Closed := True\<rparr>)"
    by simp
  have h4: "ReadAll ((fx_resp 429 ''429 Too Many Requests'')\<lparr>Closed := True\<rparr>) = Inr ''''"
    by (simp add: ReadAll_def fx_resp_def)
  from h1 h2 h3 h4 show ?thesis by blast
qed

text \<open>
  C8.  \<open>SetMaxRetries\<close> stores a negative count as it is.  With it the executor sends
  nothing and returns a \<open>nil\<close> response with a \<open>nil\<close> error, and each of the three
  operations, once its request is built, panics on that response.
\<close>

theorem negative_retry_count_unguarded:
  assumes "n < 0"
  shows "maxRetries (SetMaxRetries c n) = n \<and>
         doRequestWithRetry (SetMaxRetries c n) ctx req w = ((None, None), w) \<and>
         (url_Parse L (sites_url c orgID) = None \<longrightarrow>
            CreateSecureConnectSite L (SetMaxRetries c n) ctx orgID siteID regionType regionID regionName w
              = (Panics, w) \<and>
            DeleteSecureConnectSites L (SetMaxRetries c n) ctx orgID siteID w = (Panics, w)) \<and>
         (url_Parse L (sites_url c orgID @ ''?perPage=1000'') = None \<longrightarrow>
            GetSecureConnectSites L (SetMaxRetries c n) ctx orgID w = Some (Panics, w))"
proof -
  have m: "maxRetries (SetMaxRetries c n) = n" by (simp add: SetMaxRetries_def)
  have u: "sites_url (SetMaxRetries c n) orgID = sites_url c orgID"
    by (simp add: sites_url_def SetMaxRetries_def)
  have d: "doRequestWithRetry (SetMaxRetries c n) ctx rq w = ((None, None), w)" for rq
    using assms m by (simp add: doRequestWithRetry_def retry_loop_exit)
  have cr: "CreateSecureConnectSite L (SetMaxRetries c n) ctx orgID siteID regionType regionID regionName w
              = (Panics, w)" if "url_Parse L (sites_url c orgID) = None"
    using that by (simp add: CreateSecureConnectSite_def NewRequestWithContext_def u d finish_def)
  have de: "DeleteSecureConnectSites L (SetMaxRetries c n) ctx orgID siteID w = (Panics, w)"
    if "url_Parse L (sites_url c orgID) = None"
    using that by (simp add: DeleteSecureConnectSites_def NewRequestWithContext_def u d finish_def)
  have li: "GetSecureConnectSites L (SetMaxRetries c n) ctx orgID w = Some (Panics, w)"
    if "url_Parse L (sites_url c orgID @ ''?perPage=1000'') = None"
    using that
    by (simp add: GetSecureConnectSites_def list_loop.simps list_page_def NewRequestWithContext_def u d)
  show ?thesis using m d cr de li by blast
qed

theorem negative_retry_count_unguarded_witness:
  "(- 1 :: int) < 0 \<and>
   maxRetries (SetMaxRetries fx_limited (- 1)) = - 1 \<and>
   doRequestWithRetry (SetMaxRetries fx_limited (- 1)) fx_ctx fx_req \<lparr>sent = []\<rparr>
     = ((None, None), \<lparr>sent = []\<rparr>) \<and>
   url_Parse fx_lib (sites_url fx_limited ''org'') = None \<and>
   CreateSecureConnectSite fx_lib (SetMaxRetries fx_limited (- 1)) fx_ctx ''org'' ''site'' ''CNHE'' '''' ''''
     \<lparr>sent = []\<rparr> = (Panics, \<lparr>sent = []\<rparr>) \<and>
   DeleteSecureConnectSites fx_lib (SetMaxRetries fx_limited (- 1)) fx_ctx ''org'' ''site'' \<lparr>sent = []\<rparr>
     = (Panics, \<lparr>sent = []\<rparr>) \<and>
   url_Parse fx_lib (sites_url fx_limited ''org'' @ ''?perPage=1000'') = None \<and>
   GetSecureConnectSites fx_lib (SetMaxRetries fx_limited (- 1)) fx_ctx ''org'' \<lparr>sent = []\<rparr>
     = Some (Panics, \<lparr>sent = []\<rparr>)"
proof -
  have h: "(- 1 :: int) < 0" by simp
  have p1: "url_Parse fx_lib (sites_url fx_limited ''org'') = None"
    and p2: "url_Parse fx_lib (sites_url fx_limited ''org'' @ ''?perPage=1000'') = None"
    by (simp_all add: fx_lib_def)
  show ?thesis
    using negative_retry_count_unguarded [OF h, of fx_limited fx_ctx fx_req "\<lparr>sent = []\<rparr>"
        fx_lib "''org''" "''site''" "''CNHE''" "''''" "''''"] h p1 p2
    by blast
qed

section \<open>Create and delete: the request and the status rule\<close>

lemma retry_loop_sent:
  "\<exists>k. sent (snd (retry_loop c ctx req attempt resp w)) = sent w @ replicate k req"
proof (induction c ctx req attempt resp w rule: retry_loop.induct)
  case (1 c ctx req attempt resp w)
  let ?w = "w\<lparr>sent := sent w @ [req]\<rparr>"
  have one: "sent ?w = sent w @ replicate 1 req" by simp
  show ?case
  proof (cases "attempt \<le> maxRetries c")
    case False
    then have "sent (snd (retry_loop c ctx req attempt resp w)) = sent w @ replicate 0 req"
      by (simp add: retry_loop_exit)
    then show ?thesis by blast
  next
    case True
    show ?thesis
    proof (cases "httpClient c (length (sent w)) req")
      case (Inl err)
      then have "sent (snd (retry_loop c ctx req attempt resp w)) = sent w @ replicate 1 req"
        using True by (subst retry_loop.simps) (simp add: Let_def)
      then show ?thesis by blast
    next
      case (Inr r)
      show ?thesis
      proof (cases "retried (StatusCode r)")
        case False
        then have "sent (snd (retry_loop c ctx req attempt resp w)) = sent w @ replicate 1 req"
          using retry_loop_answer [OF True Inr False] by simp
        then show ?thesis by blast
      next
        case rt: True
        show ?thesis
        proof (cases "attempt < maxRetries c \<and> Done ctx (length (sent ?w))")
          case True
          then have "sent (snd (retry_loop c ctx req attempt resp w)) = sent w @ replicate 1 req"
            using \<open>attempt \<le> maxRetries c\<close> Inr rt
            by (subst retry_loop.simps) (auto simp: Let_def retried_def)
          then show ?thesis by blast
        next
          case False
          have step: "retry_loop c ctx req attempt resp w =
                retry_loop c ctx req (attempt + 1) (Some (r\<lparr>Closed := True\<rparr>)) ?w"
            by (rule retry_loop_again [OF True Inr rt]) (use False in simp)
          obtain k where "sent (snd (retry_loop c ctx req (attempt + 1) (Some (r\<lparr>Closed := True\<rparr>)) ?w))
               = sent ?w @ replicate k req"
            using "1.IH" [OF True refl Inr _ _ False] rt by (auto simp: retried_def)
          then have "sent (snd (retry_loop c ctx req attempt resp w)) = sent w @ replicate (Suc k) req"
            using step by simp
          then show ?thesis by blast
        qed
      qed
    qed
  qed
qed

lemma retry_loop_sends_first:
  assumes "attempt \<le> maxRetries c"
  shows "\<exists>k. sent (snd (retry_loop c ctx req attempt resp w)) = sent w @ replicate (Suc k) req"
proof -
  let ?w = "w\<lparr>sent := sent w @ [req]\<rparr>"
  have "retry_loop c ctx req attempt resp w =
          (case httpClient c (length (sent w)) req of
             Inl err \<Rightarrow> ((None, Some err), ?w)
           | Inr r \<Rightarrow>
               if StatusCode r < 300 then ((Some r, None), ?w)
               else if StatusCode r \<ge> 400 \<and> StatusCode r < 500 \<and> StatusCode r \<noteq> 429
                 then ((Some r, None), ?w)
               else if attempt < maxRetries c \<and> Done ctx (length (sent ?w)) then
                 ((None, Some (Err ctx)), ?w)
               else retry_loop c ctx req (attempt + 1) (Some (r\<lparr>Closed := True\<rparr>)) ?w)"
    using assms by (subst retry_loop.simps) (simp add: Let_def)
  moreover have "\<exists>k. sent (snd (retry_loop c ctx req (attempt + 1) rs ?w)) = sent w @ replicate (Suc k) req" for rs
  proof -
    obtain k where "sent (snd (retry_loop c ctx req (attempt + 1) rs ?w)) = sent ?w @ replicate k req"
      using retry_loop_sent by blast
    then have "sent (snd (retry_loop c ctx req (attempt + 1) rs ?w)) = sent w @ replicate (Suc k) req"
      by simp
    then show ?thesis by blast
  qed
  moreover have "\<exists>k. sent ?w = sent w @ replicate (Suc k) req"
    by (intro exI [of _ 0]) simp
  ultimately show ?thesis
    by (auto split: sum.splits)
qed

lemma finish_sent: "snd (finish what res) = snd res"
  by (auto simp: finish_def split: prod.splits option.splits)

lemma enrollment_fields:
  "enrollment siteID regionType regionID regionName ''siteId'' = Some siteID"
  "enrollment siteID regionType regionID regionName ''regionType'' = Some regionType"
  "enrollment siteID regionType regionID regionName ''regionId'' =
     (if regionID = '''' then None else Some regionID)"
  "enrollment siteID regionType regionID regionName ''regionName'' =
     (if regionName = '''' then None else Some regionName)"
  by (simp_all add: enrollment_def Let_def)

text \<open>
  C7.  Every request the create operation sends is the same POST, and its body is an
  object whose \<open>enrollments\<close> list holds exactly one object.  That object always has
  \<open>siteId\<close> and \<open>regionType\<close>, has \<open>regionId\<close> exactly when the region identifier is
  not empty, has \<open>regionName\<close> exactly when the region name is not empty, and has no
  other key.  The request is sent at least once when the target parses and the retry
  count is not negative.
\<close>

theorem create_request_body:
  "\<exists>k e. sent (snd (CreateSecureConnectSite L c ctx orgID siteID regionType regionID regionName w)) =
           sent w @ replicate k
             \<lparr>Method = ''POST'', URL = sites_url c orgID,
              Header = [(''Content-Type'', ''application/json''), (''Accept'', ''application/json''),
                        (''X-Cisco-Meraki-API-Key'', apiKey c)],
              ReqBody = Some (JObject [''enrollments'' \<mapsto> JArray [JObject e]])\<rparr> \<and>
         (url_Parse L (sites_url c orgID) = None \<and> 0 \<le> maxRetries c \<longrightarrow> 0 < k) \<and>
         e ''siteId'' = Some (JString siteID) \<and>
         e ''regionType'' = Some (JString regionType) \<and>
         e ''regionId'' = (if regionID = '''' then None else Some (JString regionID)) \<and>
         e ''regionName'' = (if regionName = '''' then None else Some (JString regionName)) \<and>
         dom e = {''siteId'', ''regionType''} \<union> (if regionID = '''' then {} else {''regionId''})
                   \<union> (if regionName = '''' then {} else {''regionName''})"
proof -
  define e where "e = map_option JString \<circ> enrollment siteID regionType regionID regionName"
  define rq where "rq = \<lparr>Method = ''POST'', URL = sites_url c orgID,
              Header = [(''Content-Type'', ''application/json''), (''Accept'', ''application/json''),
                        (''X-Cisco-Meraki-API-Key'', apiKey c)],
              ReqBody = Some (JObject [''enrollments'' \<mapsto> JArray [JObject e]])\<rparr>"
  have rq: "set_headers c \<lparr>Method = ''POST'', URL = sites_url c orgID, Header = [],
                    ReqBody = Some (create_body siteID regionType regionID regionName)\<rparr> = rq"
    by (simp add: set_headers_def Header_Set_def rq_def create_body_def e_def)
  have fields: "e ''siteId'' = Some (JString siteID)"
    "e ''regionType'' = Some (JString regionType)"
    "e ''regionId'' = (if regionID = '''' then None else Some (JString regionID))"
    "e ''regionName'' = (if regionName = '''' then None else Some (JString regionName))"
    by (simp_all add: e_def enrollment_fields)
  have "dom e = dom (enrollment siteID regionType regionID regionName)"
    by (auto simp: e_def)
  also have "\<dots> = {''siteId'', ''regionType''} \<union> (if regionID = '''' then {} else {''regionId''})
                   \<union> (if regionName = '''' then {} else {''regionName''})"
    by (auto simp: enrollment_def Let_def split: if_splits)
  finally have d: "dom e = {''siteId'', ''regionType''} \<union> (if regionID = '''' then {} else {''regionId''})
                   \<union> (if regionName = '''' then {} else {''regionName''})" .
  have "\<exists>k. sent (snd (CreateSecureConnectSite L c ctx orgID siteID regionType regionID regionName w)) =
           sent w @ replicate k rq \<and>
           (url_Parse L (sites_url c orgID) = None \<and> 0 \<le> maxRetries c \<longrightarrow> 0 < k)"
  proof (cases "url_Parse L (sites_url c orgID)")
    case (Some err)
    then have "sent (snd (CreateSecureConnectSite L c ctx orgID siteID regionType regionID regionName w)) =
           sent w @ replicate 0 rq"
      by (simp add: CreateSecureConnectSite_def NewRequestWithContext_def)
    with Some show ?thesis by (intro exI [of _ 0]) simp
  next
    case None
    then have cr: "CreateSecureConnectSite L c ctx orgID siteID regionType regionID regionName w =
        finish ''create failed: '' (retry_loop c ctx rq 0 None w)"
      by (simp add: CreateSecureConnectSite_def NewRequestWithContext_def rq doRequestWithRetry_def)
    show ?thesis
    proof (cases "0 \<le> maxRetries c")
      case True
      then obtain k where "sent (snd (retry_loop c ctx rq 0 None w)) = sent w @ replicate (Suc k) rq"
        using retry_loop_sends_first by blast
      then show ?thesis unfolding cr finish_sent by (intro exI [of _ "Suc k"]) simp
    next
      case False
      obtain k where "sent (snd (retry_loop c ctx rq 0 None w)) = sent w @ replicate k rq"
        using retry_loop_sent by blast
      then show ?thesis unfolding cr finish_sent using False by (intro exI [of _ k]) simp
    qed
  qed
  then show ?thesis unfolding rq_def using fields d by blast
qed

text \<open>
  C6.  Once the request is built, whatever response the executor hands back decides the
  result of create and of delete by its status alone: from 300 on, an error whose
  message ends with the status text; below 300, \<open>nil\<close>.
\<close>

theorem create_delete_status_rule:
  assumes "url_Parse L (sites_url c orgID) = None"
  shows "(doRequestWithRetry c ctx (create_request c orgID siteID regionType regionID regionName) w
            = ((Some r, None), w') \<longrightarrow>
          CreateSecureConnectSite L c ctx orgID siteID regionType regionID regionName w =
            (Returns (if StatusCode r \<ge> 300 then Some (Errorf (''create failed: '' @ Status r)) else None),
             w')) \<and>
         (doRequestWithRetry c ctx (delete_request c orgID siteID) w = ((Some r, None), w') \<longrightarrow>
          DeleteSecureConnectSites L c ctx orgID siteID w =
            (Returns (if StatusCode r \<ge> 300 then Some (Errorf (''delete failed: '' @ Status r)) else None),
             w'))"
  using assms
  by (simp add: CreateSecureConnectSite_def DeleteSecureConnectSites_def NewRequestWithContext_def
      create_request_def delete_request_def finish_def)

theorem create_request_body_witness:
  "url_Parse fx_lib (sites_url fx_refusing ''org'') = None \<and> 0 \<le> maxRetries fx_refusing \<and>
   (\<exists>k e. sent (snd (CreateSecureConnectSite fx_lib fx_refusing fx_ctx ''org'' ''site'' ''CNHE''
                        '''' ''eu-west'' \<lparr>sent = []\<rparr>)) =
           replicate k
             \<lparr>Method = ''POST'', URL = ''https://h/organizations/org/secureConnect/sites'',
              Header = [(''Content-Type'', ''application/json''), (''Accept'', ''application/json''),
                        (''X-Cisco-Meraki-API-Key'', ''key'')],
              ReqBody = Some (JObject [''enrollments'' \<mapsto> JArray [JObject e]])\<rparr> \<and>
         0 < k \<and>
         e ''siteId'' = Some (JString ''site'') \<and>
         e ''regionType'' = Some (JString ''CNHE'') \<and>
         e ''regionId'' = None \<and>
         e ''regionName'' = Some (JString ''eu-west'') \<and>
         dom e = {''regionName'', ''siteId'', ''regionType''})"
proof -
  have h1: "url_Parse fx_lib (sites_url fx_refusing ''org'') = None"
    by (simp add: fx_lib_def)
  have h2: "0 \<le> maxRetries fx_refusing"
    by (simp add: fx_refusing_def NewClient_def)
  have u: "sites_url fx_refusing ''org'' = ''https://h/organizations/org/secureConnect/sites''"
    by (simp add: sites_url_def fx_refusing_def NewClient_def)
  have k: "apiKey fx_refusing = ''key''"
    by (simp add: fx_refusing_def NewClient_def)
  show ?thesis
    using create_request_body [of fx_lib fx_refusing fx_ctx "''org''" "''site''" "''CNHE''" "''''"
        "''eu-west''" "\<lparr>sent = []\<rparr>"] h1 h2
    unfolding u k by simp
qed

theorem create_delete_status_rule_witness:
  "url_Parse fx_lib (sites_url fx_refusing ''org'') = None \<and>
   doRequestWithRetry fx_refusing fx_ctx (create_request fx_refusing ''org'' ''site'' ''CNHE'' '''' '''')
       \<lparr>sent = []\<rparr> =
     ((Some (fx_resp 404 ''404 Not Found''), None),
      \<lparr>sent = [create_request fx_refusing ''org'' ''site'' ''CNHE'' '''' '''']\<rparr>) \<and>
   CreateSecureConnectSite fx_lib fx_refusing fx_ctx ''org'' ''site'' ''CNHE'' '''' '''' \<lparr>sent = []\<rparr> =
     (Returns (Some (Errorf ''create failed: 404 Not Found'')),
      \<lparr>sent = [create_request fx_refusing ''org'' ''site'' ''CNHE'' '''' '''']\<rparr>) \<and>
   doRequestWithRetry fx_refusing fx_ctx (delete_request fx_refusing ''org'' ''site'') \<lparr>sent = []\<rparr> =
     ((Some (fx_resp 204 ''204 No Content''), None),
      \<lparr>sent = [delete_request fx_refusing ''org'' ''site'']\<rparr>) \<and>
   DeleteSecureConnectSites fx_lib fx_refusing fx_ctx ''org'' ''site'' \<lparr>sent = []\<rparr> =
     (Returns None, \<lparr>sent = [delete_request fx_refusing ''org'' ''site'']\<rparr>)"
proof -
  have h: "url_Parse fx_lib (sites_url fx_refusing ''org'') = None"
    by (simp add: fx_lib_def)
  have m: "0 \<le> maxRetries fx_refusing"
    by (simp add: fx_refusing_def NewClient_def)
  have pm: "Method (create_request fx_refusing ''org'' ''site'' ''CNHE'' '''' '''') = ''POST''"
    by (simp add: create_request_def set_headers_def Header_Set_def)
  have dm: "Method (delete_request fx_refusing ''org'' ''site'') = ''DELETE''"
    by (simp add: delete_request_def set_headers_def Header_Set_def)
  have hc: "httpClient fx_refusing k rq =
      (if Method rq = ''POST'' then Inr (fx_resp 404 ''404 Not Found'')
       else Inr (fx_resp 204 ''204 No Content''))" for k rq
    by (simp add: fx_refusing_def NewClient_def)
  have c1: "doRequestWithRetry fx_refusing fx_ctx
        (create_request fx_refusing ''org'' ''site'' ''CNHE'' '''' '''') \<lparr>sent = []\<rparr> =
     ((Some (fx_resp 404 ''404 Not Found''), None),
      \<lparr>sent = [create_request fx_refusing ''org'' ''site'' ''CNHE'' '''' '''']\<rparr>)"
    unfolding doRequestWithRetry_def
    by (subst retry_loop_answer [where r = "fx_resp 404 ''404 Not Found''"])
      (simp_all add: m hc pm retried_def fx_resp_def)
  have d1: "doRequestWithRetry fx_refusing fx_ctx (delete_request fx_refusing ''org'' ''site'')
       \<lparr>sent = []\<rparr> =
     ((Some (fx_resp 204 ''204 No Content''), None),
      \<lparr>sent = [delete_request fx_refusing ''org'' ''site'']\<rparr>)"
    unfolding doRequestWithRetry_def
    by (subst retry_loop_answer [where r = "fx_resp 204 ''204 No Content''"])
      (simp_all add: m hc dm retried_def fx_resp_def)
  have c2: "CreateSecureConnectSite fx_lib fx_refusing fx_ctx ''org'' ''site'' ''CNHE'' '''' ''''
       \<lparr>sent = []\<rparr> =
     (Returns (Some (Errorf ''create failed: 404 Not Found'')),
      \<lparr>sent = [create_request fx_refusing ''org'' ''site'' ''CNHE'' '''' '''']\<rparr>)"
    using create_delete_status_rule [OF h, of fx_ctx "''site''" "''CNHE''" "''''" "''''"
        "\<lparr>sent = []\<rparr>" "fx_resp 404 ''404 Not Found''"
        "\<lparr>sent = [create_request fx_refusing ''org'' ''site'' ''CNHE'' '''' '''']\<rparr>"] c1
    by (simp add: fx_resp_def)
  have d2: "DeleteSecureConnectSites fx_lib fx_refusing fx_ctx ''org'' ''site'' \<lparr>sent = []\<rparr> =
     (Returns None, \<lparr>sent = [delete_request fx_refusing ''org'' ''site'']\<rparr>)"
    using create_delete_status_rule [OF h, of fx_ctx "''site''" "''CNHE''" "''''" "''''"
        "\<lparr>sent = []\<rparr>" "fx_resp 204 ''204 No Content''"
        "\<lparr>sent = [delete_request fx_refusing ''org'' ''site'']\<rparr>"] d1
    by (simp add: fx_resp_def)
  from h c1 c2 d1 d2 show ?thesis by blast
qed

section \<open>The Link header parser against the header grammar\<close>

lemma HasPrefix_iff: "HasPrefix s p \<longleftrightarrow> (\<exists>b. s = p @ b)"
  by (induction s p rule: HasPrefix.induct) auto

lemma Contains_iff: "Contains s p \<longleftrightarrow> (\<exists>a b. s = a @ p @ b)"
proof (induction s)
  case Nil
  then show ?case by (auto simp: HasPrefix_iff)
next
  case (Cons x xs)
  show ?case
  proof
    assume "Contains (x # xs) p"
    then consider "HasPrefix (x # xs) p" | "Contains xs p" by auto
    then show "\<exists>a b. x # xs = a @ p @ b"
    proof cases
      case 1
      then obtain b where "x # xs = p @ b" by (auto simp: HasPrefix_iff)
      then have "x # xs = [] @ p @ b" by simp
      then show ?thesis by blast
    next
      case 2
      then obtain a b where "xs = a @ p @ b" using Cons.IH by blast
      then have "x # xs = (x # a) @ p @ b" by simp
      then show ?thesis by blast
    qed
  next
    assume "\<exists>a b. x # xs = a @ p @ b"
    then obtain a b where ab: "x # xs = a @ p @ b" by blast
    show "Contains (x # xs) p"
    proof (cases a)
      case Nil
      then have "HasPrefix (x # xs) p" using ab by (auto simp: HasPrefix_iff)
      then show ?thesis by simp
    next
      case (Cons y ys)
      then have "xs = ys @ p @ b" using ab by simp
      then have "Contains xs p" using Cons.IH by blast
      then show ?thesis by simp
    qed
  qed
qed

lemma Contains_rev: "Contains (rev s) (rev p) = Contains s p"
proof -
  have "(\<exists>a b. rev s = a @ rev p @ b) \<longleftrightarrow> (\<exists>a b. s = a @ p @ b)"
  proof
    assume "\<exists>a b. rev s = a @ rev p @ b"
    then obtain a b where "rev s = a @ rev p @ b" by blast
    then have "s = rev b @ p @ rev a" by (metis rev_append rev_rev_ident append.assoc)
    then show "\<exists>a b. s = a @ p @ b" by blast
  next
    assume "\<exists>a b. s = a @ p @ b"
    then obtain a b where "s = a @ p @ b" by blast
    then have "rev s = rev b @ rev p @ rev a" by simp
    then show "\<exists>a b. rev s = a @ rev p @ b" by blast
  qed
  then show ?thesis by (simp add: Contains_iff)
qed

lemma Contains_dropWhile:
  assumes "p \<noteq> []" and "\<not> P (hd p)"
  shows "Contains (dropWhile P s) p = Contains s p"
proof (induction s)
  case Nil
  then show ?case by simp
next
  case (Cons x xs)
  show ?case
  proof (cases "P x")
    case True
    then have "\<not> HasPrefix (x # xs) p" using assms by (cases p) auto
    then show ?thesis using True Cons.IH by simp
  next
    case False
    then show ?thesis by simp
  qed
qed

lemma Contains_TrimSpace:
  assumes "p \<noteq> []" and "\<not> isSpace (hd p)" and "\<not> isSpace (last p)"
  shows "Contains (TrimSpace s) p = Contains s p"
proof -
  have r: "rev p \<noteq> []" "\<not> isSpace (hd (rev p))" using assms by (simp_all add: hd_rev)
  have "Contains (TrimSpace s) p = Contains (dropWhile isSpace (rev (dropWhile isSpace s))) (rev p)"
    unfolding TrimSpace_def by (subst Contains_rev [symmetric]) simp
  also have "\<dots> = Contains (rev (dropWhile isSpace s)) (rev p)"
    using r by (rule Contains_dropWhile [of "rev p" isSpace])
  also have "\<dots> = Contains (dropWhile isSpace s) p" by (rule Contains_rev)
  also have "\<dots> = Contains s p" using assms(1,2) by (rule Contains_dropWhile [of p isSpace])
  finally show ?thesis .
qed

lemma names_next_TrimSpace: "names_next (TrimSpace s) = names_next s"
  unfolding names_next_def
  by (simp add: Contains_TrimSpace isSpace_def)

lemma Contains_append: "Contains s p \<Longrightarrow> Contains (a @ s @ b) p"
proof -
  assume "Contains s p"
  then obtain x y where "s = x @ p @ y" by (auto simp: Contains_iff)
  then have "a @ s @ b = (a @ x) @ p @ (y @ b)" by simp
  then show ?thesis unfolding Contains_iff by blast
qed

lemma Split_no_sep: "sep \<notin> set s \<Longrightarrow> Split s sep = [s]"
  by (induction s) auto

lemma Split_neq_Nil: "Split s sep \<noteq> []"
  by (induction s) (auto split: list.splits)

lemma Split_append_sep: "sep \<notin> set p \<Longrightarrow> Split (p @ sep # s) sep = p # Split s sep"
  by (induction p) (auto split: list.splits)

lemma Split_Join:
  "ps \<noteq> [] \<Longrightarrow> list_all (\<lambda>q. CHR '','' \<notin> set q) ps \<Longrightarrow> Split (Join ps) CHR '','' = ps"
proof (induction ps rule: Join.induct)
  case 1
  then show ?case by simp
next
  case (2 p)
  then show ?case by (simp add: Split_no_sep)
next
  case (3 p q ps)
  then show ?case by (simp add: Split_append_sep)
qed

lemma Split_first_prefix: "Split s sep = p # ps \<Longrightarrow> \<exists>b. s = p @ b"
proof (induction s arbitrary: p ps)
  case Nil
  then show ?case by simp
next
  case (Cons x xs)
  show ?case
  proof (cases "x = sep")
    case True
    with Cons.prems have "p = []" by simp
    then show ?thesis by simp
  next
    case False
    obtain q qs where sp: "Split xs sep = q # qs" using Split_neq_Nil by (cases "Split xs sep") auto
    with False Cons.prems have e: "p = x # q" by simp
    from sp obtain b where "xs = q @ b" using Cons.IH by blast
    with e show ?thesis by simp
  qed
qed

lemma Split_parts: "part \<in> set (Split s sep) \<Longrightarrow> \<exists>a b. s = a @ part @ b"
proof (induction s arbitrary: part)
  case Nil
  then show ?case by simp
next
  case (Cons x xs)
  show ?case
  proof (cases "x = sep")
    case True
    with Cons.prems have "part = [] \<or> part \<in> set (Split xs sep)" by auto
    then show ?thesis
    proof
      assume "part = []"
      then have "x # xs = [] @ part @ (x # xs)" by simp
      then show ?thesis by blast
    next
      assume "part \<in> set (Split xs sep)"
      then obtain a b where "xs = a @ part @ b" using Cons.IH by blast
      then have "x # xs = (x # a) @ part @ b" by simp
      then show ?thesis by blast
    qed
  next
    case False
    obtain p ps where sp: "Split xs sep = p # ps" using Split_neq_Nil by (cases "Split xs sep") auto
    with False Cons.prems have "part = x # p \<or> part \<in> set ps" by auto
    then show ?thesis
    proof
      assume e: "part = x # p"
      from sp obtain b where "xs = p @ b" using Split_first_prefix by blast
      with e have "x # xs = [] @ part @ b" by simp
      then show ?thesis by blast
    next
      assume "part \<in> set ps"
      then have "part \<in> set (Split xs sep)" using sp by simp
      then obtain a b where "xs = a @ part @ b" using Cons.IH by blast
      then have "x # xs = (x # a) @ part @ b" by simp
      then show ?thesis by blast
    qed
  qed
qed


lemma find_next_skip: "\<not> names_next p \<Longrightarrow> find_next (p # ps) = find_next ps"
  using names_next_TrimSpace [of p] by (simp add: names_next_def Let_def)

lemma find_next_none: "list_all (\<lambda>q. \<not> names_next q) ps \<Longrightarrow> find_next ps = ''''"
proof (induction ps)
  case Nil
  then show ?case by simp
next
  case (Cons p ps)
  then show ?case by (simp add: find_next_skip del: find_next.simps)
qed

lemma names_next_part:
  assumes "part \<in> set (Split h sep)" and "names_next part"
  shows "names_next h"
proof -
  obtain a b where "h = a @ part @ b" using Split_parts [OF assms(1)] by blast
  then show ?thesis using assms(2) by (auto simp: names_next_def intro: Contains_append)
qed

lemma nextURL_none: "\<not> names_next h \<Longrightarrow> nextURL h = ''''"
  unfolding nextURL_def
  by (rule find_next_none) (auto simp: list_all_iff dest: names_next_part)

lemma Index_first: "ch \<notin> set s \<Longrightarrow> Index (s @ ch # t) ch = int (length s)"
  by (induction s) (auto simp: Let_def)

lemma dropWhile_all: "list_all P sp \<Longrightarrow> \<not> P y \<Longrightarrow> dropWhile P (sp @ y # ys) = y # ys"
  by (induction sp) auto

lemma TrimSpace_directive:
  assumes "list_all isSpace sp"
  shows "TrimSpace (sp @ ''<'' @ u @ ''>'' @ params) =
         ''<'' @ u @ ''>'' @ rev (dropWhile isSpace (rev params))"
proof -
  have lt: "\<not> isSpace CHR ''<''" and gt: "\<not> isSpace CHR ''>''" by (simp_all add: isSpace_def)
  have 1: "dropWhile isSpace (sp @ ''<'' @ u @ ''>'' @ params) = ''<'' @ u @ ''>'' @ params"
    using dropWhile_all [OF assms lt] by simp
  have 2: "rev (''<'' @ u @ ''>'' @ params) = rev params @ CHR ''>'' # (rev u @ ''<'')" by simp
  have 3: "dropWhile isSpace (rev params @ CHR ''>'' # (rev u @ ''<'')) =
           dropWhile isSpace (rev params) @ CHR ''>'' # (rev u @ ''<'')"
    using gt by (simp add: dropWhile_append3)
  show ?thesis unfolding TrimSpace_def 1 2 3 by simp
qed

lemma find_next_hit:
  assumes "directive part u"
  shows "find_next (part # ps) = u"
proof -
  from assms obtain sp params where part: "part = sp @ ''<'' @ u @ ''>'' @ params"
    and sp: "list_all isSpace sp" and u: "CHR ''>'' \<notin> set u" and nn: "names_next params"
    by (auto simp: directive_def)
  define rp where "rp = rev (dropWhile isSpace (rev params))"
  define link where "link = ''<'' @ u @ ''>'' @ rp"
  have t: "TrimSpace part = link"
    unfolding part link_def rp_def by (rule TrimSpace_directive [OF sp])
  have "names_next part"
    using nn unfolding part names_next_def
    by (metis Contains_append append.assoc append_Nil2)
  then have n: "Contains link ''rel=\"next\"'' \<or> Contains link ''rel=next''"
    using names_next_TrimSpace [of part] t by (simp add: names_next_def)
  have s: "Index link CHR ''<'' = 0" by (simp add: link_def)
  have "Index ((CHR ''<'' # u) @ CHR ''>'' # rp) CHR ''>'' = int (length (CHR ''<'' # u))"
    by (rule Index_first) (use u in simp)
  then have e: "Index link CHR ''>'' = 1 + int (length u)" by (simp add: link_def)
  have sl: "slice link (0 + 1) (1 + int (length u)) = u"
    by (simp add: slice_def link_def)
  have "find_next (part # ps) = slice link (0 + 1) (1 + int (length u))"
    using n by (simp add: t s e Let_def)
  with sl show ?thesis by simp
qed

lemma nextURL_next_link:
  assumes "next_link h u"
  shows "nextURL h = u"
proof -
  from assms obtain pre part post where h: "h = Join (pre @ part # post)"
    and nc: "list_all (\<lambda>q. CHR '','' \<notin> set q) (pre @ part # post)"
    and pre: "list_all (\<lambda>q. \<not> names_next q) pre" and d: "directive part u"
    by (auto simp: next_link_def)
  have sp: "Split h CHR '','' = pre @ part # post"
    unfolding h by (rule Split_Join [OF _ nc]) simp
  have "find_next (pre @ part # post) = find_next (part # post)"
    using pre by (induction pre) (simp_all add: find_next_skip del: find_next.simps)
  then show ?thesis using find_next_hit [OF d] by (simp add: nextURL_def sp)
qed


section \<open>The list operation\<close>

lemma paginate_cases:
  "paginate r cur all = Stop (Returns (all, None)) \<or> paginate r cur all = Next (nextURL (Link r)) all"
  by (simp add: paginate_def Let_def)

lemma list_page_fetched:
  assumes "url_Parse L url = None"
    and "doRequestWithRetry c ctx (list_request c url) w = ((Some r, None), w')"
    and "StatusCode r = 200"
    and "ReadAll r = Inr body"
  shows "list_page L c ctx url allSites w =
         (case decode_page L body of
            Some cur \<Rightarrow> (paginate r cur (allSites @ cur), w')
          | None \<Rightarrow> (Stop (Returns ([], Some (Errorf
               ''response doesn't match expected formats (wrapped or direct array)''))), w'))"
  using assms
  by (simp add: list_page_def NewRequestWithContext_def list_request_def decode_page_def
      split: sum.splits)

lemma list_page_error:
  assumes "list_page L c ctx url allSites w = (Stop (Returns (sites, Some e)), w')"
  shows "sites = []"
proof -
  have p: "paginate r cur all \<noteq> Stop (Returns (sites, Some e))" for r and cur all :: "'a list"
    using paginate_cases [of r cur all] by auto
  show ?thesis
    using assms p
    by (auto simp: list_page_def NewRequestWithContext_def
        split: option.splits sum.splits prod.splits if_splits)
qed

lemma list_loop_stop:
  "list_page L c ctx url allSites w = (Stop res, w') \<Longrightarrow>
   list_loop L c ctx url allSites w = Some (res, w')"
  by (subst list_loop.simps) simp

lemma list_loop_next:
  "list_page L c ctx url allSites w = (Next url' allSites', w') \<Longrightarrow>
   list_loop L c ctx url allSites w = list_loop L c ctx url' allSites' w'"
  by (subst list_loop.simps) simp


lemma doRequestWithRetry_200:
  assumes "0 \<le> maxRetries c"
    and "httpClient c (length (sent w)) req = Inr r"
    and "StatusCode r = 200"
  shows "doRequestWithRetry c ctx req w = ((Some r, None), w\<lparr>sent := sent w @ [req]\<rparr>)"
  unfolding doRequestWithRetry_def
  by (rule retry_loop_answer) (use assms in \<open>simp_all add: retried_def\<close>)

lemma URL_list_request: "URL (list_request c url) = url"
  by (simp add: list_request_def set_headers_def Header_Set_def)

lemma list_loop_full_page:
  assumes "url_Parse L url = None"
    and "doRequestWithRetry c ctx (list_request c url) w = ((Some r, None), w')"
    and "StatusCode r = 200"
    and "ReadAll r = Inr body"
    and "decode_page L body = Some page"
    and "1000 \<le> length page"
    and "nextURL (Link r) \<noteq> ''''"
  shows "list_loop L c ctx url allSites w = list_loop L c ctx (nextURL (Link r)) (allSites @ page) w'"
proof (rule list_loop_next)
  have lp: "list_page L c ctx url allSites w = (paginate r page (allSites @ page), w')"
    using list_page_fetched [OF assms(1-4)] assms(5) by simp
  have "Link r \<noteq> ''''" using assms(7) by (auto simp: nextURL_def TrimSpace_def)
  then show "list_page L c ctx url allSites w = (Next (nextURL (Link r)) (allSites @ page), w')"
    using lp assms(6,7) by (simp add: paginate_def Let_def)
qed

lemma list_loop_last_page:
  assumes "url_Parse L url = None"
    and "doRequestWithRetry c ctx (list_request c url) w = ((Some r, None), w')"
    and "StatusCode r = 200"
    and "ReadAll r = Inr body"
    and "decode_page L body = Some page"
    and "nextURL (Link r) = ''''"
  shows "list_loop L c ctx url allSites w = Some (Returns (allSites @ page, None), w')"
proof (rule list_loop_stop)
  have lp: "list_page L c ctx url allSites w = (paginate r page (allSites @ page), w')"
    using list_page_fetched [OF assms(1-4)] assms(5) by simp
  then show "list_page L c ctx url allSites w = (Stop (Returns (allSites @ page, None)), w')"
    using assms(6) by (simp add: paginate_def Let_def)
qed


text \<open>
  C3.  Three pages of 1000, 1000 and 400 records, the first two with a next directive
  in their Link header and the third with a header that does not mention the relation.
  The list operation returns the records of the three pages in page order, with no
  error, and has sent exactly three requests, one GET per page.
\<close>

theorem three_pages_concatenated:
  assumes "0 \<le> maxRetries c"
    and "u1 = sites_url c orgID @ ''?perPage=1000''"
    and "url_Parse L u1 = None" and "url_Parse L u2 = None" and "url_Parse L u3 = None"
    and "httpClient c (length (sent w)) (list_request c u1) = Inr r1"
    and "httpClient c (length (sent w) + 1) (list_request c u2) = Inr r2"
    and "httpClient c (length (sent w) + 2) (list_request c u3) = Inr r3"
    and "StatusCode r1 = 200" and "StatusCode r2 = 200" and "StatusCode r3 = 200"
    and "ReadAll r1 = Inr b1" and "ReadAll r2 = Inr b2" and "ReadAll r3 = Inr b3"
    and "decode_page L b1 = Some p1" and "decode_page L b2 = Some p2" and "decode_page L b3 = Some p3"
    and "length p1 = 1000" and "length p2 = 1000" and "length p3 = 400"
    and "next_link (Link r1) u2" and "u2 \<noteq> ''''"
    and "next_link (Link r2) u3" and "u3 \<noteq> ''''"
    and "\<not> names_next (Link r3)"
  shows "GetSecureConnectSites L c ctx orgID w =
           Some (Returns (p1 @ p2 @ p3, None),
                 w\<lparr>sent := sent w @ [list_request c u1, list_request c u2, list_request c u3]\<rparr>) \<and>
         length (p1 @ p2 @ p3) = 2400 \<and>
         map Method [list_request c u1, list_request c u2, list_request c u3] = [''GET'', ''GET'', ''GET'']"
proof -
  let ?w1 = "w\<lparr>sent := sent w @ [list_request c u1]\<rparr>"
  let ?w2 = "?w1\<lparr>sent := sent ?w1 @ [list_request c u2]\<rparr>"
  let ?w3 = "?w2\<lparr>sent := sent ?w2 @ [list_request c u3]\<rparr>"
  have d1: "doRequestWithRetry c ctx (list_request c u1) w = ((Some r1, None), ?w1)"
    using assms(1,6,9) by (rule doRequestWithRetry_200)
  have d2: "doRequestWithRetry c ctx (list_request c u2) ?w1 = ((Some r2, None), ?w2)"
    by (rule doRequestWithRetry_200) (use assms(1,7,10) in simp_all)
  have d3: "doRequestWithRetry c ctx (list_request c u3) ?w2 = ((Some r3, None), ?w3)"
    by (rule doRequestWithRetry_200) (use assms(1,8,11) in simp_all)
  have n1: "nextURL (Link r1) = u2" using assms(21) by (rule nextURL_next_link)
  have n2: "nextURL (Link r2) = u3" using assms(23) by (rule nextURL_next_link)
  have n3: "nextURL (Link r3) = ''''" using assms(25) by (rule nextURL_none)
  have s1: "list_loop L c ctx u1 [] w = list_loop L c ctx u2 ([] @ p1) ?w1"
    using list_loop_full_page [OF assms(3) d1 assms(9,12,15), of "[]"] assms(18,22) n1 by simp
  have s2: "list_loop L c ctx u2 ([] @ p1) ?w1 = list_loop L c ctx u3 (([] @ p1) @ p2) ?w2"
    using list_loop_full_page [OF assms(4) d2 assms(10,13,16), of "[] @ p1"] assms(19,24) n2 by simp
  have s3: "list_loop L c ctx u3 (([] @ p1) @ p2) ?w2 =
      Some (Returns ((([] @ p1) @ p2) @ p3, None), ?w3)"
    using assms(5) d3 assms(11,14,17) n3 by (rule list_loop_last_page)
  have run: "GetSecureConnectSites L c ctx orgID w =
           Some (Returns (p1 @ p2 @ p3, None),
                 w\<lparr>sent := sent w @ [list_request c u1, list_request c u2, list_request c u3]\<rparr>)"
    unfolding GetSecureConnectSites_def assms(2) [symmetric] s1 s2 s3 by simp
  have len: "length (p1 @ p2 @ p3) = 2400" using assms(18-20) by simp
  have get: "map Method [list_request c u1, list_request c u2, list_request c u3] = [''GET'', ''GET'', ''GET'']"
    by (simp add: list_request_def set_headers_def Header_Set_def)
  from run len get show ?thesis by blast
qed

subsection \<open>The concrete runs of the list operation\<close>

lemma fx_u1_first: "sites_url fx_paged ''org'' @ ''?perPage=1000'' = fx_u1"
  by (simp add: sites_url_def fx_paged_def NewClient_def fx_u1_def)

lemma fx_paged_answers:
  "httpClient fx_paged k (list_request fx_paged fx_u1) = Inr (fx_page ''page1'' fx_link2)"
  "httpClient fx_paged k (list_request fx_paged ''https://h/p2'') = Inr (fx_page ''page2'' fx_link3)"
  "httpClient fx_paged k (list_request fx_paged ''https://h/p3'') = Inr (fx_page ''page3'' '''')"
  by (simp_all add: fx_paged_def NewClient_def URL_list_request fx_u1_def)

lemma fx_page_fields:
  "StatusCode (fx_page b l) = 200" "ReadAll (fx_page b l) = Inr b" "Link (fx_page b l) = l"
  by (simp_all add: fx_page_def ReadAll_def)

lemma fx_pages_decode:
  "decode_page fx_pages ''page1'' = Some fx_p1"
  "decode_page fx_pages ''page2'' = Some fx_p2"
  "decode_page fx_pages ''page3'' = Some fx_p3"
  by (simp_all add: decode_page_def fx_pages_def)

lemma fx_lengths: "length fx_p1 = 1000" "length fx_p2 = 1000" "length fx_p3 = 400"
  by (simp_all add: fx_p1_def fx_p2_def fx_p3_def)

lemma fx_link2_next: "next_link fx_link2 ''https://h/p2''"
  unfolding next_link_def
proof (intro exI conjI)
  show "fx_link2 = Join ([] @ fx_link2 # [])" by simp
  show "list_all (\<lambda>q. CHR '','' \<notin> set q) ([] @ fx_link2 # [])" by (simp add: fx_link2_def)
  show "list_all (\<lambda>q. \<not> names_next q) []" by simp
  show "directive fx_link2 ''https://h/p2''"
    unfolding directive_def
  proof (intro exI conjI)
    show "fx_link2 = [] @ ''<'' @ ''https://h/p2'' @ ''>'' @ ''; rel=\"next\"''"
      by (simp add: fx_link2_def)
    show "list_all isSpace []" by simp
    show "CHR ''>'' \<notin> set ''https://h/p2''" by simp
    show "names_next ''; rel=\"next\"''" by (simp add: names_next_def)
  qed
qed

lemma fx_link3_next: "next_link fx_link3 ''https://h/p3''"
  unfolding next_link_def
proof (intro exI conjI)
  show "fx_link3 = Join ([''<https://h/p1>; rel=first''] @ '' <https://h/p3>; rel=next'' # [])"
    by (simp add: fx_link3_def)
  show "list_all (\<lambda>q. CHR '','' \<notin> set q)
          ([''<https://h/p1>; rel=first''] @ '' <https://h/p3>; rel=next'' # [])"
    by simp
  show "list_all (\<lambda>q. \<not> names_next q) [''<https://h/p1>; rel=first'']"
    by (simp add: names_next_def)
  show "directive '' <https://h/p3>; rel=next'' ''https://h/p3''"
    unfolding directive_def
  proof (intro exI conjI)
    show "'' <https://h/p3>; rel=next'' = '' '' @ ''<'' @ ''https://h/p3'' @ ''>'' @ ''; rel=next''"
      by simp
    show "list_all isSpace '' ''" by (simp add: isSpace_def)
    show "CHR ''>'' \<notin> set ''https://h/p3''" by simp
    show "names_next ''; rel=next''" by (simp add: names_next_def)
  qed
qed

lemma fx_no_link: "\<not> names_next ''''"
  by (simp add: names_next_def)

lemma fx_paged_retries: "0 \<le> maxRetries fx_paged"
  by (simp add: fx_paged_def NewClient_def)

lemma fx_parse: "url_Parse fx_pages u = None" "url_Parse fx_lib u = None"
  by (simp_all add: fx_pages_def fx_lib_def)

theorem three_pages_concatenated_witness:
  "GetSecureConnectSites fx_pages fx_paged fx_ctx ''org'' \<lparr>sent = []\<rparr> =
     Some (Returns (replicate 1000 1 @ replicate 1000 2 @ replicate 400 3, None),
           \<lparr>sent = [list_request fx_paged fx_u1, list_request fx_paged ''https://h/p2'',
                    list_request fx_paged ''https://h/p3'']\<rparr>)"
proof -
  have "GetSecureConnectSites fx_pages fx_paged fx_ctx ''org'' \<lparr>sent = []\<rparr> =
     Some (Returns (fx_p1 @ fx_p2 @ fx_p3, None),
           \<lparr>sent = []\<rparr>\<lparr>sent := sent \<lparr>sent = []\<rparr> @
              [list_request fx_paged fx_u1, list_request fx_paged ''https://h/p2'',
               list_request fx_paged ''https://h/p3'']\<rparr>)"
    using three_pages_concatenated [of fx_paged fx_u1 "''org''" fx_pages "''https://h/p2''"
        "''https://h/p3''" "\<lparr>sent = []\<rparr>"
        "fx_page ''page1'' fx_link2" "fx_page ''page2'' fx_link3" "fx_page ''page3'' ''''"
        "''page1''" "''page2''" "''page3''" fx_p1 fx_p2 fx_p3 fx_ctx,
        OF fx_paged_retries fx_u1_first [symmetric] fx_parse(1) fx_parse(1) fx_parse(1)
          fx_paged_answers(1) fx_paged_answers(2) fx_paged_answers(3)
          fx_page_fields(1) fx_page_fields(1) fx_page_fields(1)
          fx_page_fields(2) fx_page_fields(2) fx_page_fields(2)
          fx_pages_decode(1) fx_pages_decode(2) fx_pages_decode(3)
          fx_lengths(1) fx_lengths(2) fx_lengths(3)]
      fx_link2_next fx_link3_next fx_no_link
    by (simp add: fx_page_fields(3))
  then show ?thesis by (simp add: fx_p1_def fx_p2_def fx_p3_def)
qed



lemma list_loop_error:
  assumes "list_loop L c ctx url allSites w = Some y"
  shows "\<forall>sites e w'. y = (Returns (sites, Some e), w') \<longrightarrow> sites = []"
  using assms
proof (rule list_loop.raw_induct
    [where P = "\<lambda>L c ctx url allSites w y. \<forall>sites e w'. y = (Returns (sites, Some e), w') \<longrightarrow> sites = []",
      rotated])
  fix f L c ctx url and allSites :: "'a list" and w y
  assume IH: "\<And>L c ctx url allSites w y. f L c ctx url allSites w = Some y \<Longrightarrow>
                \<forall>sites e w'. y = (Returns (sites, Some e), w') \<longrightarrow> sites = []"
    and st: "(case list_page L c ctx url allSites w of
                (Stop res, w') \<Rightarrow> Some (res, w')
              | (Next url' allSites', w') \<Rightarrow> f L c ctx url' allSites' w') = Some y"
  obtain s w1 where lp: "list_page L c ctx url allSites w = (s, w1)"
    by (cases "list_page L c ctx url allSites w")
  show "\<forall>sites e w'. y = (Returns (sites, Some e), w') \<longrightarrow> sites = []"
  proof (cases s)
    case (Stop res)
    with st lp have y: "y = (res, w1)" by simp
    show ?thesis
    proof (intro allI impI)
      fix sites e w' assume "y = (Returns (sites, Some e), w')"
      with y Stop lp have "list_page L c ctx url allSites w = (Stop (Returns (sites, Some e)), w')"
        by simp
      then show "sites = []" by (rule list_page_error)
    qed
  next
    case (Next url' allSites')
    with st lp have "f L c ctx url' allSites' w1 = Some y" by simp
    then show ?thesis by (rule IH)
  qed
qed

text \<open>
  C1.  The code tells the two formats apart by the error of \<open>json.Unmarshal\<close> alone.  A
  body that \<open>json.Unmarshal\<close> rejects for both targets ends the list operation with the
  format-mismatch error.  A JSON object without a \<open>data\<close> list is in neither format,
  but \<open>json.Unmarshal\<close> into the wrapper struct does not reject it; the list operation
  takes it for a wrapped page without records and returns no records and no error.  The
  two runs below are a server that answers 200 with the string \<open>"oops"\<close> and a server
  that answers 200 with the object \<open>{"error":"x"}\<close>.
\<close>

theorem list_object_without_data_accepted:
  "GetSecureConnectSites fx_json (fx_serving ''\"oops\"'') fx_ctx ''org'' \<lparr>sent = []\<rparr> =
     Some (Returns ([], Some (Errorf
       ''response doesn't match expected formats (wrapped or direct array)'')),
       \<lparr>sent = [list_request (fx_serving ''\"oops\"'') fx_u1]\<rparr>) \<and>
   GetSecureConnectSites fx_json (fx_serving ''{\"error\":\"x\"}'') fx_ctx ''org'' \<lparr>sent = []\<rparr> =
     Some (Returns ([], None),
       \<lparr>sent = [list_request (fx_serving ''{\"error\":\"x\"}'') fx_u1]\<rparr>)"
proof -
  have m: "0 \<le> maxRetries (fx_serving b)" for b
    by (simp add: fx_serving_def NewClient_def)
  have u: "sites_url (fx_serving b) ''org'' @ ''?perPage=1000'' = fx_u1" for b
    by (simp add: sites_url_def fx_serving_def NewClient_def fx_u1_def)
  have a: "httpClient (fx_serving b) k rq = Inr (fx_page b '''')" for b k rq
    by (simp add: fx_serving_def NewClient_def)
  have p: "url_Parse fx_json fx_u1 = None"
    by (simp add: fx_json_def)
  have d: "doRequestWithRetry (fx_serving b) fx_ctx (list_request (fx_serving b) fx_u1) \<lparr>sent = []\<rparr> =
      ((Some (fx_page b ''''), None), \<lparr>sent = [list_request (fx_serving b) fx_u1]\<rparr>)" for b
    using doRequestWithRetry_200 [where w = "\<lparr>sent = []\<rparr>" and ctx = fx_ctx,
        OF m a fx_page_fields(1)]
    by simp
  have lp: "list_page fx_json (fx_serving b) fx_ctx fx_u1 [] \<lparr>sent = []\<rparr> =
      (case decode_page fx_json b of
         Some cur \<Rightarrow> (paginate (fx_page b '''') cur ([] @ cur),
                       \<lparr>sent = [list_request (fx_serving b) fx_u1]\<rparr>)
       | None \<Rightarrow> (Stop (Returns ([], Some (Errorf
            ''response doesn't match expected formats (wrapped or direct array)''))),
                   \<lparr>sent = [list_request (fx_serving b) fx_u1]\<rparr>))" for b
    by (rule list_page_fetched [OF p d fx_page_fields(1) fx_page_fields(2)])
  have d1: "decode_page fx_json ''\"oops\"'' = None"
    by (simp add: decode_page_def fx_json_def)
  have d2: "decode_page fx_json ''{\"error\":\"x\"}'' = Some []"
    by (simp add: decode_page_def fx_json_def)
  have pg: "paginate (fx_page b '''') [] ([] @ []) = Stop (Returns ([], None))" for b
    by (simp add: paginate_def fx_page_def)
  have r1: "list_loop fx_json (fx_serving ''\"oops\"'') fx_ctx fx_u1 [] \<lparr>sent = []\<rparr> =
      Some (Returns ([], Some (Errorf
        ''response doesn't match expected formats (wrapped or direct array)'')),
        \<lparr>sent = [list_request (fx_serving ''\"oops\"'') fx_u1]\<rparr>)"
    by (rule list_loop_stop) (simp add: lp d1)
  have r2: "list_loop fx_json (fx_serving ''{\"error\":\"x\"}'') fx_ctx fx_u1 [] \<lparr>sent = []\<rparr> =
      Some (Returns ([], None),
        \<lparr>sent = [list_request (fx_serving ''{\"error\":\"x\"}'') fx_u1]\<rparr>)"
    by (rule list_loop_stop) (simp add: lp d2 pg [simplified])
  from r1 r2 show ?thesis by (simp add: GetSecureConnectSites_def u)
qed

text \<open>
  C9.  Whenever the list operation returns an error, the record list it returns with it
  is empty (\<open>nil\<close>), whatever had been accumulated from earlier pages.
\<close>

theorem list_error_no_records:
  "(list_loop L c ctx url allSites w = Some (Returns (sites, Some e), w') \<longrightarrow> sites = []) \<and>
   (GetSecureConnectSites L c ctx orgID w = Some (Returns (sites, Some e), w') \<longrightarrow> sites = [])"
  using list_loop_error [of L c ctx url allSites w "(Returns (sites, Some e), w')"]
    list_loop_error [of L c ctx "sites_url c orgID @ ''?perPage=1000''" "[]" w "(Returns (sites, Some e), w')"]
  by (simp add: GetSecureConnectSites_def)

lemma Sprint_d_404: "Sprint_d 404 = ''404''"
  by code_simp

theorem list_error_no_records_witness:
  "fx_p1 \<noteq> [] \<and>
   list_loop fx_pages fx_torn fx_ctx ''https://h/p2'' fx_p1 \<lparr>sent = [list_request fx_torn fx_u1]\<rparr> =
     Some (Returns ([], Some (Errorf ''bad response (404): not found'')),
           \<lparr>sent = [list_request fx_torn fx_u1, list_request fx_torn ''https://h/p2'']\<rparr>) \<and>
   GetSecureConnectSites fx_pages fx_torn fx_ctx ''org'' \<lparr>sent = []\<rparr> =
     Some (Returns ([], Some (Errorf ''bad response (404): not found'')),
           \<lparr>sent = [list_request fx_torn fx_u1, list_request fx_torn ''https://h/p2'']\<rparr>)"
proof -
  let ?w1 = "\<lparr>sent = [list_request fx_torn fx_u1]\<rparr>"
  let ?w2 = "\<lparr>sent = [list_request fx_torn fx_u1, list_request fx_torn ''https://h/p2'']\<rparr>"
  let ?nf = "(fx_resp 404 ''404 Not Found'')\<lparr>Body := Stream (Inr ''not found'')\<rparr>"
  have m: "0 \<le> maxRetries fx_torn" by (simp add: fx_torn_def NewClient_def)
  have ne: "fx_p1 \<noteq> []" by (simp add: fx_p1_def)
  have a1: "httpClient fx_torn k (list_request fx_torn fx_u1) = Inr (fx_page ''page1'' fx_link2)" for k
    by (simp add: fx_torn_def NewClient_def URL_list_request)
  have a2: "httpClient fx_torn k (list_request fx_torn ''https://h/p2'') = Inr ?nf" for k
    by (simp add: fx_torn_def NewClient_def URL_list_request fx_u1_def)
  have d1: "doRequestWithRetry fx_torn fx_ctx (list_request fx_torn fx_u1) \<lparr>sent = []\<rparr> =
      ((Some (fx_page ''page1'' fx_link2), None), ?w1)"
    using doRequestWithRetry_200 [where w = "\<lparr>sent = []\<rparr>" and ctx = fx_ctx,
        OF m a1 fx_page_fields(1)]
    by simp
  have d2: "doRequestWithRetry fx_torn fx_ctx (list_request fx_torn ''https://h/p2'') ?w1 = ((Some ?nf, None), ?w2)"
    unfolding doRequestWithRetry_def
    by (subst retry_loop_answer [where r = ?nf]) (simp_all add: m a2 retried_def fx_resp_def)
  have u: "sites_url fx_torn ''org'' @ ''?perPage=1000'' = fx_u1"
    by (simp add: sites_url_def fx_torn_def NewClient_def fx_u1_def)
  have s1: "list_loop fx_pages fx_torn fx_ctx fx_u1 [] \<lparr>sent = []\<rparr> =
            list_loop fx_pages fx_torn fx_ctx ''https://h/p2'' ([] @ fx_p1) ?w1"
    using list_loop_full_page [OF fx_parse(1) d1 fx_page_fields(1) fx_page_fields(2) fx_pages_decode(1),
        of "[]"] nextURL_next_link [OF fx_link2_next]
    by (simp add: fx_lengths fx_page_fields(3))
  have lp: "list_page fx_pages fx_torn fx_ctx ''https://h/p2'' fx_p1 ?w1 =
      (Stop (Returns ([], Some (Errorf ''bad response (404): not found''))), ?w2)"
    by (simp add: list_page_def NewRequestWithContext_def fx_parse(1) list_request_def [symmetric]
        d2 ReadAll_def fx_resp_def Sprint_d_404)
  have loop: "list_loop fx_pages fx_torn fx_ctx ''https://h/p2'' fx_p1 ?w1 =
      Some (Returns ([], Some (Errorf ''bad response (404): not found'')), ?w2)"
    using lp by (rule list_loop_stop)
  have run: "GetSecureConnectSites fx_pages fx_torn fx_ctx ''org'' \<lparr>sent = []\<rparr> =
      Some (Returns ([], Some (Errorf ''bad response (404): not found'')), ?w2)"
    unfolding GetSecureConnectSites_def u s1 using loop by simp
  have "([] :: nat list) = []"
    using list_error_no_records [of fx_pages fx_torn fx_ctx "''https://h/p2''" fx_p1 ?w1 "[]"
        "Errorf ''bad response (404): not found''" ?w2 "''org''"] loop
      list_error_no_records [of fx_pages fx_torn fx_ctx fx_u1 "[]" "\<lparr>sent = []\<rparr>" "[]"
        "Errorf ''bad response (404): not found''" ?w2 "''org''"] run
    by blast
  with ne loop run show ?thesis by blast
qed

end
